theory Spec2Isabelle
  imports Complex_Main "HOL-Library.Sublist" "HOL-Library.Log_Nat"
begin

section \<open>JavaScript values\<close>

text \<open>
  The server is dynamically typed: a field of a request body may hold any JSON value, and
  the code decides what to do with it by truthiness, \<open>typeof\<close> and implicit coercion.
  The model keeps that: body fields and product fields are values of \<open>jsval\<close>.

  Conventions of the model.
  \<^item> A number is \<open>NaN\<close>, an infinity or a finite double, the latter given by the
    rational it denotes. Arithmetic and the conversions from text compute the exact
    result and round it to the nearest double, ties to even, overflowing to an infinity
    (\<open>round_double\<close>). The two zeros are one value: the server never divides by a zero
    it computed, and JSON writes both as \<open>0\<close>.
  \<^item> A string is a list of 8-bit characters (code units below 256).
  \<^item> Field values are JSON primitives or absent (\<open>JUndefined\<close>); arrays and nested objects
    as field values are outside the model.
\<close>

datatype jsnum = NaN | PosInf | NegInf | Fin rat

subsection \<open>Rounding to a double\<close>

definition pow2 :: "int \<Rightarrow> rat" where
  "pow2 e = (if 0 \<le> e then 2 ^ nat e else 1 / 2 ^ nat (- e))"

text \<open>For a positive \<open>a\<close>, the exponent \<open>e\<close> with \<open>2^e \<le> a < 2^(e+1)\<close>.\<close>

definition floor_log2 :: "rat \<Rightarrow> int" where
  "floor_log2 a = (if 1 \<le> a then bitlen \<lfloor>a\<rfloor> - 1 else - bitlen (\<lceil>1 / a\<rceil> - 1))"

definition round_half_even :: "rat \<Rightarrow> int" where
  "round_half_even x =
     (let f = \<lfloor>x\<rfloor>; d = x - of_int f in
      if d < 1 / 2 then f else if 1 / 2 < d then f + 1 else if even f then f else f + 1)"

text \<open>
  The double nearest to a rational. A double has 53 significant bits and a least
  exponent of \<open>-1022\<close>, so its last bit is worth \<open>2^q\<close> for
  \<open>q = max e (-1022) - 52\<close>; the value is rounded to a multiple of that, and a result of
  \<open>2^1024\<close> or more is an infinity.
\<close>

definition round_double :: "rat \<Rightarrow> jsnum" where
  "round_double r =
     (if r = 0 then Fin 0
      else
        (let a = \<bar>r\<bar>;
             q = max (floor_log2 a) (- 1022) - 52;
             v = of_int (round_half_even (a / pow2 q)) * pow2 q
         in if 2 ^ 1024 \<le> v then (if r < 0 then NegInf else PosInf)
            else Fin (if r < 0 then - v else v)))"

subsection \<open>Values\<close>

datatype jsval = JUndefined | JNull | JBool bool | JNum jsnum | JStr string

type_synonym jsobject = "(string \<times> jsval) list"

fun num_truthy :: "jsnum \<Rightarrow> bool" where
  "num_truthy NaN = False"
| "num_truthy PosInf = True"
| "num_truthy NegInf = True"
| "num_truthy (Fin r) = (r \<noteq> 0)"

fun truthy :: "jsval \<Rightarrow> bool" where
  "truthy JUndefined = False"
| "truthy JNull = False"
| "truthy (JBool b) = b"
| "truthy (JNum n) = num_truthy n"
| "truthy (JStr s) = (s \<noteq> [])"

fun typeof :: "jsval \<Rightarrow> string" where
  "typeof JUndefined = ''undefined''"
| "typeof JNull = ''object''"
| "typeof (JBool b) = ''boolean''"
| "typeof (JNum n) = ''number''"
| "typeof (JStr s) = ''string''"

fun num_neg :: "jsnum \<Rightarrow> jsnum" where
  "num_neg NaN = NaN"
| "num_neg PosInf = NegInf"
| "num_neg NegInf = PosInf"
| "num_neg (Fin r) = Fin (- r)"

fun num_add :: "jsnum \<Rightarrow> jsnum \<Rightarrow> jsnum" where
  "num_add NaN y = NaN"
| "num_add x NaN = NaN"
| "num_add PosInf NegInf = NaN"
| "num_add NegInf PosInf = NaN"
| "num_add PosInf y = PosInf"
| "num_add x PosInf = PosInf"
| "num_add NegInf y = NegInf"
| "num_add x NegInf = NegInf"
| "num_add (Fin a) (Fin b) = round_double (a + b)"

definition num_sub :: "jsnum \<Rightarrow> jsnum \<Rightarrow> jsnum" where
  "num_sub x y = num_add x (num_neg y)"

text \<open>The sign of a number other than \<open>NaN\<close>: \<open>-1\<close>, 0 or 1.\<close>

fun num_sign :: "jsnum \<Rightarrow> int" where
  "num_sign NaN = 0"
| "num_sign PosInf = 1"
| "num_sign NegInf = - 1"
| "num_sign (Fin r) = (if r < 0 then - 1 else if r = 0 then 0 else 1)"

fun num_mul :: "jsnum \<Rightarrow> jsnum \<Rightarrow> jsnum" where
  "num_mul NaN y = NaN"
| "num_mul x NaN = NaN"
| "num_mul (Fin a) (Fin b) = round_double (a * b)"
| "num_mul x y =
     (if num_sign x * num_sign y = 0 then NaN
      else if 0 < num_sign x * num_sign y then PosInf else NegInf)"

text \<open>
  \<open>x / n\<close> where \<open>n\<close> is the length of an array: a non-negative integer below \<open>2^32\<close>,
  which is a double.
\<close>

fun num_div_length :: "jsnum \<Rightarrow> nat \<Rightarrow> jsnum" where
  "num_div_length NaN n = NaN"
| "num_div_length PosInf n = PosInf"
| "num_div_length NegInf n = NegInf"
| "num_div_length (Fin a) n =
     (if n = 0 then (if a = 0 then NaN else if 0 < a then PosInf else NegInf)
      else round_double (a / of_nat n))"

text \<open>\<open>x <= 0\<close> on numbers: false whenever \<open>x\<close> is \<open>NaN\<close>.\<close>

fun num_le_zero :: "jsnum \<Rightarrow> bool" where
  "num_le_zero NaN = False"
| "num_le_zero PosInf = False"
| "num_le_zero NegInf = True"
| "num_le_zero (Fin r) = (r \<le> 0)"

subsection \<open>Characters and strings\<close>

definition is_ws :: "char \<Rightarrow> bool" where
  "is_ws c = ((of_char c :: nat) \<in> set [9, 10, 11, 12, 13, 32, 160])"

definition is_digit :: "char \<Rightarrow> bool" where
  "is_digit c = (48 \<le> (of_char c :: nat) \<and> (of_char c :: nat) \<le> 57)"

text \<open>The value of a character as a digit in radix up to 16; 16 for any other character.\<close>

definition char_val :: "char \<Rightarrow> nat" where
  "char_val c =
     (let n = (of_char c :: nat) in
      if 48 \<le> n \<and> n \<le> 57 then n - 48
      else if 97 \<le> n \<and> n \<le> 102 then n - 87
      else if 65 \<le> n \<and> n \<le> 70 then n - 55
      else 16)"

definition is_radix_digit :: "nat \<Rightarrow> char \<Rightarrow> bool" where
  "is_radix_digit r c = (char_val c < r)"

definition digits_val :: "nat \<Rightarrow> string \<Rightarrow> nat" where
  "digits_val r s = foldl (\<lambda>a c. r * a + char_val c) 0 s"

definition is_upper :: "char \<Rightarrow> bool" where
  "is_upper c =
     (let n = (of_char c :: nat) in
      (65 \<le> n \<and> n \<le> 90) \<or> (192 \<le> n \<and> n \<le> 222 \<and> n \<noteq> 215))"

text \<open>
  Lower-casing a code unit below 256: an upper-case letter is 32 below its lower-case form,
  and bit 5 (value 32) of an upper-case letter is clear, so the bit is set.
\<close>

definition lower_char :: "char \<Rightarrow> char" where
  "lower_char c =
     (if is_upper c
      then (case c of Char b0 b1 b2 b3 b4 b5 b6 b7 \<Rightarrow> Char b0 b1 b2 b3 b4 True b6 b7)
      else c)"

definition toLowerCase :: "string \<Rightarrow> string" where
  "toLowerCase s = map lower_char s"

text \<open>\<open>hay.includes(needle)\<close>: the needle occurs in the hay as a contiguous run.\<close>

fun includes_str :: "string \<Rightarrow> string \<Rightarrow> bool" where
  "includes_str [] needle = (needle = [])"
| "includes_str (h # hay) needle = (prefix needle (h # hay) \<or> includes_str hay needle)"

subsection \<open>Strings to numbers\<close>

definition trim_start :: "string \<Rightarrow> string" where
  "trim_start s = dropWhile is_ws s"

definition trim :: "string \<Rightarrow> string" where
  "trim s = rev (dropWhile is_ws (rev (dropWhile is_ws s)))"

definition scale10 :: "rat \<Rightarrow> int \<Rightarrow> rat" where
  "scale10 m e = (if 0 \<le> e then m * 10 ^ nat e else m / 10 ^ nat (- e))"

text \<open>
  An optional exponent part after a mantissa: \<open>e\<close> or \<open>E\<close>, an optional sign and at least
  one digit. Without a digit nothing is consumed.
\<close>

definition parse_exponent :: "string \<Rightarrow> int \<times> string" where
  "parse_exponent s =
     (case s of
        [] \<Rightarrow> (0, s)
      | c # r \<Rightarrow>
          if c = CHR ''e'' \<or> c = CHR ''E'' then
            (let sgn = (case r of [] \<Rightarrow> 1 | d # t \<Rightarrow> if d = CHR ''-'' then - 1 else (1::int));
                 r' = (case r of [] \<Rightarrow> r
                       | d # t \<Rightarrow> if d = CHR ''-'' \<or> d = CHR ''+'' then t else r);
                 ds = takeWhile is_digit r'
             in if ds = [] then (0, s)
                else (sgn * int (digits_val 10 ds), dropWhile is_digit r'))
          else (0, s))"

text \<open>
  The longest prefix that is an unsigned decimal literal (\<open>Infinity\<close>, \<open>12\<close>, \<open>12.\<close>,
  \<open>12.5\<close>, \<open>.5\<close>, each but the first with an optional exponent), with its value, the
  double nearest to the decimal it writes, and the rest of the string; \<open>None\<close> when no
  prefix is one.
\<close>

definition parse_unsigned :: "string \<Rightarrow> (jsnum \<times> string) option" where
  "parse_unsigned s =
     (if prefix ''Infinity'' s then Some (PosInf, drop 8 s)
      else
        (let ip = takeWhile is_digit s;
             r1 = dropWhile is_digit s;
             dot = (r1 \<noteq> [] \<and> hd r1 = CHR ''.'');
             fp = (if dot then takeWhile is_digit (tl r1) else []);
             r2 = (if dot then dropWhile is_digit (tl r1) else r1)
         in if ip = [] \<and> fp = [] then None
            else
              (let mant = of_nat (digits_val 10 ip) + of_nat (digits_val 10 fp) / 10 ^ length fp;
                   er = parse_exponent r2
               in Some (round_double (scale10 mant (fst er)), snd er))))"

definition parse_signed :: "string \<Rightarrow> (jsnum \<times> string) option" where
  "parse_signed s =
     (case s of
        [] \<Rightarrow> None
      | c # t \<Rightarrow>
          if c = CHR ''+'' then parse_unsigned t
          else if c = CHR ''-'' then map_option (\<lambda>vr. (num_neg (fst vr), snd vr)) (parse_unsigned t)
          else parse_unsigned s)"

text \<open>\<open>parseFloat\<close> of a string: leading white space is skipped, trailing text ignored.\<close>

definition parseFloat_str :: "string \<Rightarrow> jsnum" where
  "parseFloat_str s = (case parse_signed (trim_start s) of None \<Rightarrow> NaN | Some vr \<Rightarrow> fst vr)"

text \<open>The radix of a \<open>0x\<close>, \<open>0o\<close> or \<open>0b\<close> literal, by its two-character prefix.\<close>

definition literal_radix :: "string \<Rightarrow> nat option" where
  "literal_radix s =
     (case s of
        c0 # c1 # ds \<Rightarrow>
          if c0 \<noteq> CHR ''0'' then None
          else if c1 = CHR ''x'' \<or> c1 = CHR ''X'' then Some 16
          else if c1 = CHR ''o'' \<or> c1 = CHR ''O'' then Some 8
          else if c1 = CHR ''b'' \<or> c1 = CHR ''B'' then Some 2
          else None
      | _ \<Rightarrow> None)"

text \<open>
  The coercion of a string to a number (\<open>Number(s)\<close>): white space is trimmed on both
  sides, the empty string is 0, and the whole of the rest must be one numeric literal.
\<close>

definition string_to_number :: "string \<Rightarrow> jsnum" where
  "string_to_number s =
     (let t = trim s in
      if t = [] then Fin 0
      else
        (case literal_radix t of
           Some r \<Rightarrow>
             (let ds = drop 2 t in
              if ds \<noteq> [] \<and> list_all (is_radix_digit r) ds
              then round_double (of_nat (digits_val r ds))
              else NaN)
         | None \<Rightarrow>
             (case parse_signed t of
                None \<Rightarrow> NaN
              | Some vr \<Rightarrow> if snd vr = [] then fst vr else NaN)))"

text \<open>
  \<open>parseInt(s)\<close> with no radix argument: leading white space and a sign are skipped, a
  \<open>0x\<close> prefix selects radix 16, and the longest run of digits is read. The result is
  \<open>NaN\<close> when there is no digit, and otherwise the double nearest to the integer read.
\<close>

definition parseInt_str :: "string \<Rightarrow> jsnum" where
  "parseInt_str s =
     (let t = trim_start s;
          neg = (t \<noteq> [] \<and> hd t = CHR ''-'');
          t1 = (if t \<noteq> [] \<and> (hd t = CHR ''-'' \<or> hd t = CHR ''+'') then tl t else t);
          hex = (literal_radix t1 = Some 16);
          r = (if hex then 16 else 10);
          t2 = (if hex then drop 2 t1 else t1);
          z = takeWhile (is_radix_digit r) t2
      in if z = [] then NaN
         else round_double (of_int ((if neg then - 1 else 1) * int (digits_val r z))))"

subsection \<open>Coercions of values\<close>

fun toNumber :: "jsval \<Rightarrow> jsnum" where
  "toNumber JUndefined = NaN"
| "toNumber JNull = Fin 0"
| "toNumber (JBool b) = (if b then Fin 1 else Fin 0)"
| "toNumber (JNum n) = n"
| "toNumber (JStr s) = string_to_number s"

definition isNaN :: "jsval \<Rightarrow> bool" where
  "isNaN v = (toNumber v = NaN)"

text \<open>\<open>v <= 0\<close>: the value is coerced to a number and compared.\<close>

definition le_zero :: "jsval \<Rightarrow> bool" where
  "le_zero v = num_le_zero (toNumber v)"

text \<open>
  \<open>parseFloat(v)\<close> converts its argument to a string and parses that. A number prints
  to a string that parses back to the same number; \<open>true\<close>, \<open>false\<close>, \<open>null\<close> and
  \<open>undefined\<close> print to words that start no numeric literal.
\<close>

fun parseFloat :: "jsval \<Rightarrow> jsnum" where
  "parseFloat (JNum n) = n"
| "parseFloat (JStr s) = parseFloat_str s"
| "parseFloat (JBool b) = parseFloat_str (if b then ''true'' else ''false'')"
| "parseFloat JNull = parseFloat_str ''null''"
| "parseFloat JUndefined = parseFloat_str ''undefined''"

subsection \<open>Query parameters\<close>

text \<open>
  The value of a query parameter as the query parser delivers it: a string, or for a
  repeated or bracketed parameter (\<open>a=1&a=2\<close>, \<open>a[]=1\<close>, \<open>a[k]=1\<close>) an array or an
  object of such values. A parameter that the query does not have is \<open>undefined\<close>
  (\<open>None\<close>).
\<close>

datatype qval = QStr string | QArr "qval list" | QObj "(string \<times> qval) list"

fun q_truthy :: "qval option \<Rightarrow> bool" where
  "q_truthy None = False"
| "q_truthy (Some (QStr s)) = (s \<noteq> [])"
| "q_truthy (Some (QArr vs)) = True"
| "q_truthy (Some (QObj kvs)) = True"

text \<open>\<open>Array.prototype.join\<close> of strings, with the separator \<open>,\<close>.\<close>

fun join_comma :: "string list \<Rightarrow> string" where
  "join_comma [] = []"
| "join_comma [s] = s"
| "join_comma (s # t # rest) = s @ '','' @ join_comma (t # rest)"

text \<open>The strings of a list of results, or the first error among them.\<close>

fun all_or_first_error :: "('e + 'a) list \<Rightarrow> 'e + 'a list" where
  "all_or_first_error [] = Inr []"
| "all_or_first_error (Inl e # rest) = Inl e"
| "all_or_first_error (Inr x # rest) =
     (case all_or_first_error rest of Inl e \<Rightarrow> Inl e | Inr xs \<Rightarrow> Inr (x # xs))"

subsection \<open>Objects used as dictionaries\<close>

text \<open>
  An object created by \<open>{}\<close> is modelled by its own properties, listed in the order in
  which \<open>Object.keys\<close> and JSON serialisation enumerate them: keys that are array indices
  (canonical decimal numerals below \<open>2^32 - 1\<close>) first, in ascending numeric order, then
  every other key in the order of its creation. Reading a key that is not an own property
  falls through to \<open>Object.prototype\<close>, whose members are functions (or, for
  \<open>__proto__\<close>, an object): truthy values that coerce to \<open>NaN\<close>.
\<close>

definition is_array_index :: "string \<Rightarrow> bool" where
  "is_array_index k =
     (k \<noteq> [] \<and> list_all is_digit k \<and> (length k = 1 \<or> hd k \<noteq> CHR ''0'')
      \<and> int (digits_val 10 k) < 4294967295)"

fun insert_index :: "string \<Rightarrow> 'v \<Rightarrow> (string \<times> 'v) list \<Rightarrow> (string \<times> 'v) list" where
  "insert_index k v [] = [(k, v)]"
| "insert_index k v (kv # rest) =
     (if is_array_index (fst kv) \<and> digits_val 10 (fst kv) < digits_val 10 k
      then kv # insert_index k v rest
      else (k, v) # kv # rest)"

definition own_set :: "string \<Rightarrow> 'v \<Rightarrow> (string \<times> 'v) list \<Rightarrow> (string \<times> 'v) list" where
  "own_set k v obj =
     (if k \<in> set (map fst obj) then map (\<lambda>kv. if fst kv = k then (k, v) else kv) obj
      else if is_array_index k then insert_index k v obj
      else obj @ [(k, v)])"

definition object_prototype_keys :: "string list" where
  "object_prototype_keys =
     [''constructor'', ''__defineGetter__'', ''__defineSetter__'', ''hasOwnProperty'',
      ''__lookupGetter__'', ''__lookupSetter__'', ''isPrototypeOf'', ''propertyIsEnumerable'',
      ''toString'', ''valueOf'', ''__proto__'', ''toLocaleString'']"

datatype 'v lookup = Own 'v | Inherited | Absent

definition get_prop :: "(string \<times> 'v) list \<Rightarrow> string \<Rightarrow> 'v lookup" where
  "get_prop obj k =
     (case map_of obj k of
        Some v \<Rightarrow> Own v
      | None \<Rightarrow> if k \<in> set object_prototype_keys then Inherited else Absent)"

text \<open>
  The assignment \<open>obj[k] = v\<close> of a string or a number: it creates or updates an own
  property, except for \<open>__proto__\<close>, whose inherited setter ignores such a value.
\<close>

definition set_prop :: "string \<Rightarrow> 'v \<Rightarrow> (string \<times> 'v) list \<Rightarrow> (string \<times> 'v) list" where
  "set_prop k v obj = (if k = ''__proto__'' then obj else own_set k v obj)"

text \<open>The read \<open>body.k\<close> of a request body, itself an object parsed from JSON.\<close>

definition field :: "jsobject \<Rightarrow> string \<Rightarrow> jsval" where
  "field b k = (case map_of b k of None \<Rightarrow> JUndefined | Some v \<Rightarrow> v)"

section \<open>Requests, responses and errors\<close>

text \<open>
  A request as the routes see it: \<open>body\<close> is the object that the JSON body parser made of
  the request body (the empty object when the request has none; an array, which the
  parser accepts too, has none of the fields that the server reads and behaves as the
  empty object), \<open>path\<close> the segments of the URL path between its slashes, as the request
  wrote them, escapes included (\<open>/\<close> is the empty list, and a path that ends in a slash
  has an empty last segment), \<open>headers\<close> the headers under their lower-case names, and
  \<open>query\<close> the parsed query, each key once. The methods are the four for which the server
  registers routes. Console output of the logger and of the error handler is not
  modelled.
\<close>

datatype http_method = GET | POST | PUT | DELETE

record request =
  req_method :: http_method
  path :: "string list"
  headers :: "(string \<times> string) list"
  query :: "(string \<times> qval) list"
  body :: jsobject

record product =
  id' :: string
  name :: jsval
  description :: jsval
  price :: jsval
  category :: jsval
  inStock :: jsval

record list_result =
  total :: nat
  page :: jsnum
  limit :: jsnum
  data :: "product list"

record stats_result =
  totalProducts :: nat
  categories :: "(string \<times> jsnum) list"
  inStockCount :: nat
  outOfStockCount :: nat
  averagePrice :: jsnum

datatype content =
    Text string
  | Json_product product
  | Json_list list_result
  | Json_stats stats_result
  | Json_message string "(string \<times> string) list option"
  | No_content
  | Default_not_found

record response =
  status :: nat
  content :: content

text \<open>
  An error object by the properties the error handler reads. \<open>NotFoundError\<close> and
  \<open>ValidationError\<close> are the classes of the source; \<open>TypeError\<close> is what the runtime
  throws on a call of a method that a value does not have. The errors of the framework
  (of the body parser and of the decoding of a route parameter) are defined with the
  routing below.
\<close>

record js_error =
  error_name :: string
  message :: string
  statusCode :: "nat option"
  errors :: "(string \<times> string) list option"

definition NotFoundError :: "string \<Rightarrow> js_error" where
  "NotFoundError msg =
     \<lparr>error_name = ''NotFoundError'', message = msg, statusCode = Some 404, errors = None\<rparr>"

definition ValidationError :: "string \<Rightarrow> (string \<times> string) list \<Rightarrow> js_error" where
  "ValidationError msg errs =
     \<lparr>error_name = ''ValidationError'', message = msg, statusCode = Some 400, errors = Some errs\<rparr>"

definition TypeError :: "string \<Rightarrow> js_error" where
  "TypeError msg =
     \<lparr>error_name = ''TypeError'', message = msg, statusCode = None, errors = None\<rparr>"

text \<open>
  The conversion of a query value to a string. An array joins the strings of its
  elements. An object prints as \<open>[object Object]\<close> through the \<open>toString\<close> it inherits;
  when the query gave it a \<open>toString\<close> key of its own, that value is not a function, the
  inherited \<open>valueOf\<close> returns the object itself, and the conversion throws.
\<close>

fun q_toString :: "qval \<Rightarrow> js_error + string" where
  "q_toString (QStr s) = Inr s"
| "q_toString (QArr vs) =
     (case all_or_first_error (map q_toString vs) of
        Inl e \<Rightarrow> Inl e
      | Inr ss \<Rightarrow> Inr (join_comma ss))"
| "q_toString (QObj kvs) =
     (if ''toString'' \<in> set (map fst kvs)
      then Inl (TypeError ''Cannot convert object to primitive value'')
      else Inr ''[object Object]'')"

text \<open>\<open>parseInt\<close> of a query parameter: the parameter is converted to a string first.\<close>

fun parseInt :: "qval option \<Rightarrow> js_error + jsnum" where
  "parseInt None = Inr (parseInt_str ''undefined'')"
| "parseInt (Some v) =
     (case q_toString v of Inl e \<Rightarrow> Inl e | Inr s \<Rightarrow> Inr (parseInt_str s))"

text \<open>
  The method call \<open>v.toLowerCase()\<close> on a truthy query parameter, where \<open>e\<close> is the text of
  the expression \<open>v\<close>: only a string has the method.
\<close>

fun q_toLowerCase :: "string \<Rightarrow> qval \<Rightarrow> js_error + string" where
  "q_toLowerCase e (QStr s) = Inr (toLowerCase s)"
| "q_toLowerCase e (QArr vs) = Inl (TypeError (e @ ''.toLowerCase is not a function''))"
| "q_toLowerCase e (QObj kvs) = Inl (TypeError (e @ ''.toLowerCase is not a function''))"

section \<open>Middleware\<close>

text \<open>A middleware either sends a response (\<open>Some\<close>) or calls \<open>next()\<close> (\<open>None\<close>).\<close>

definition apiKeyMiddleware :: "request \<Rightarrow> response option" where
  "apiKeyMiddleware req =
     (let apiKey = map_of (headers req) ''x-api-key'' in
      if (apiKey = None \<or> apiKey = Some []) \<or> apiKey \<noteq> Some ''secret-api-key''
      then Some \<lparr>status = 401, content = Json_message ''Unauthorized: Invalid API key'' None\<rparr>
      else None)"

definition validation_errors :: "jsobject \<Rightarrow> (string \<times> string) list" where
  "validation_errors b =
     (let v_name = field b ''name'';
          v_description = field b ''description'';
          v_price = field b ''price'';
          v_category = field b ''category'';
          v_inStock = field b ''inStock'';
          errs = [];
          errs = (if \<not> truthy v_name then set_prop ''name'' ''Name is required'' errs else errs);
          errs = (if \<not> truthy v_description
                  then set_prop ''description'' ''Description is required'' errs else errs);
          errs = (if \<not> truthy v_price then set_prop ''price'' ''Price is required'' errs else errs);
          errs = (if truthy v_price \<and> (isNaN v_price \<or> le_zero v_price)
                  then set_prop ''price'' ''Price must be a positive number'' errs else errs);
          errs = (if \<not> truthy v_category
                  then set_prop ''category'' ''Category is required'' errs else errs);
          errs = (if typeof v_inStock \<noteq> ''boolean''
                  then set_prop ''inStock'' ''inStock must be a boolean'' errs else errs)
      in errs)"

definition validateProduct :: "request \<Rightarrow> response option" where
  "validateProduct req =
     (let errs = validation_errors (body req) in
      if 0 < length (map fst errs)
      then Some \<lparr>status = 400, content = Json_message ''Validation failed'' (Some errs)\<rparr>
      else None)"

text \<open>The global error handler, which every thrown error reaches.\<close>

definition errorHandler :: "js_error \<Rightarrow> response" where
  "errorHandler err =
     (let code = (case statusCode err of None \<Rightarrow> 500 | Some c \<Rightarrow> if c = 0 then 500 else c);
          msg = (if message err = [] then ''Internal Server Error'' else message err)
      in \<lparr>status = code, content = Json_message msg (errors err)\<rparr>)"

section \<open>The store and the route handlers\<close>

text \<open>
  The store is the array \<open>products\<close>. It starts with two records whose ids come from
  \<open>uuidv4()\<close>; the model takes the generated ids as arguments. A price written \<open>999.99\<close> in
  the source is the double nearest to that decimal.
\<close>

definition seed_products :: "string \<Rightarrow> string \<Rightarrow> product list" where
  "seed_products u1 u2 =
     [\<lparr>id' = u1, name = JStr ''Laptop'', description = JStr ''High performance laptop'',
       price = JNum (round_double 999.99), category = JStr ''Electronics'',
       inStock = JBool True\<rparr>,
      \<lparr>id' = u2, name = JStr ''Smartphone'', description = JStr ''Latest smartphone model'',
       price = JNum (round_double 699.99), category = JStr ''Electronics'',
       inStock = JBool True\<rparr>]"

text \<open>
  The method call \<open>v.toLowerCase()\<close>, where \<open>e\<close> is the text of the expression \<open>v\<close>:
  only a string has the method, any other value makes the call throw a \<open>TypeError\<close>.
\<close>

fun call_toLowerCase :: "string \<Rightarrow> jsval \<Rightarrow> js_error + string" where
  "call_toLowerCase e (JStr s) = Inr (toLowerCase s)"
| "call_toLowerCase e JUndefined =
     Inl (TypeError ''Cannot read properties of undefined (reading 'toLowerCase')'')"
| "call_toLowerCase e JNull =
     Inl (TypeError ''Cannot read properties of null (reading 'toLowerCase')'')"
| "call_toLowerCase e (JBool b) = Inl (TypeError (e @ ''.toLowerCase is not a function''))"
| "call_toLowerCase e (JNum n) = Inl (TypeError (e @ ''.toLowerCase is not a function''))"

text \<open>\<open>Array.prototype.filter\<close> with a callback that may throw: the first throw ends it.\<close>

fun filter_throwing :: "('a \<Rightarrow> js_error + bool) \<Rightarrow> 'a list \<Rightarrow> js_error + 'a list" where
  "filter_throwing f [] = Inr []"
| "filter_throwing f (x # xs) =
     (case f x of
        Inl e \<Rightarrow> Inl e
      | Inr keep \<Rightarrow>
          (case filter_throwing f xs of
             Inl e \<Rightarrow> Inl e
           | Inr ys \<Rightarrow> Inr (if keep then x # ys else ys)))"

text \<open>
  \<open>Array.prototype.slice(start, end)\<close>. Each bound is made an integer (\<open>NaN\<close> is 0, a
  fraction is cut off towards zero); a negative bound counts from the end of the array,
  and both bounds are clamped to the array.
\<close>

definition truncate_rat :: "rat \<Rightarrow> int" where
  "truncate_rat r = (if r < 0 then \<lceil>r\<rceil> else \<lfloor>r\<rfloor>)"

fun slice_bound :: "nat \<Rightarrow> jsnum \<Rightarrow> nat" where
  "slice_bound len NaN = 0"
| "slice_bound len NegInf = 0"
| "slice_bound len PosInf = len"
| "slice_bound len (Fin r) =
     (let relative = truncate_rat r in
      if relative < 0 then nat (max (int len + relative) 0) else nat (min relative (int len)))"

definition slice :: "'a list \<Rightarrow> jsnum \<Rightarrow> jsnum \<Rightarrow> 'a list" where
  "slice xs start fin =
     (let len = length xs;
          k = slice_bound len start;
          final = slice_bound len fin
      in take (final - k) (drop k xs))"

text \<open>\<open>x || d\<close> on numbers: the default replaces \<open>NaN\<close> and 0.\<close>

definition or_default :: "jsnum \<Rightarrow> jsnum \<Rightarrow> jsnum" where
  "or_default x d = (if num_truthy x then x else d)"

text \<open>\<open>x || 0\<close> on a number.\<close>

definition or_zero :: "jsnum \<Rightarrow> jsnum" where
  "or_zero x = (if num_truthy x then x else Fin 0)"

text \<open>
  The category filter. In the callback the left side of \<open>===\<close> is evaluated first, so a
  product whose category is not a string throws before the parameter is looked at.
\<close>

definition filter_category :: "product list \<Rightarrow> qval option \<Rightarrow> js_error + product list" where
  "filter_category ps c =
     (case c of
        None \<Rightarrow> Inr ps
      | Some v \<Rightarrow>
          if \<not> q_truthy (Some v) then Inr ps
          else filter_throwing
                 (\<lambda>p. case call_toLowerCase ''p.category'' (category p) of
                         Inl e \<Rightarrow> Inl e
                       | Inr l \<Rightarrow>
                           (case q_toLowerCase ''req.query.category'' v of
                              Inl e \<Rightarrow> Inl e
                            | Inr r \<Rightarrow> Inr (l = r))) ps)"

text \<open>The search filter. The search term is lower-cased once, before the filtering.\<close>

definition filter_search :: "product list \<Rightarrow> qval option \<Rightarrow> js_error + product list" where
  "filter_search ps c =
     (case c of
        None \<Rightarrow> Inr ps
      | Some v \<Rightarrow>
          if \<not> q_truthy (Some v) then Inr ps
          else (case q_toLowerCase ''req.query.search'' v of
                  Inl e \<Rightarrow> Inl e
                | Inr searchTerm \<Rightarrow>
                    filter_throwing
                      (\<lambda>p. case call_toLowerCase ''p.name'' (name p) of
                              Inl e \<Rightarrow> Inl e
                            | Inr l \<Rightarrow> Inr (includes_str l searchTerm)) ps))"

text \<open>\<open>GET /api/products\<close>.\<close>

definition get_products :: "product list \<Rightarrow> (string \<times> qval) list \<Rightarrow> js_error + response" where
  "get_products ps q =
     (case filter_category ps (map_of q ''category'') of
        Inl e \<Rightarrow> Inl e
      | Inr by_category \<Rightarrow>
          (case filter_search by_category (map_of q ''search'') of
             Inl e \<Rightarrow> Inl e
           | Inr result \<Rightarrow>
               (case parseInt (map_of q ''page'') of
                  Inl e \<Rightarrow> Inl e
                | Inr parsed_page \<Rightarrow>
                    (case parseInt (map_of q ''limit'') of
                       Inl e \<Rightarrow> Inl e
                     | Inr parsed_limit \<Rightarrow>
                         (let pg = or_default parsed_page (Fin 1);
                              lm = or_default parsed_limit (Fin 10);
                              startIndex = num_mul (num_sub pg (Fin 1)) lm;
                              endIndex = num_mul pg lm;
                              paginatedResult = slice result startIndex endIndex
                          in Inr \<lparr>status = 200,
                                  content = Json_list
                                    \<lparr>total = length result, page = pg, limit = lm,
                                     data = paginatedResult\<rparr>\<rparr>)))))"

text \<open>
  \<open>GET /api/products/:id\<close>; \<open>rid\<close> is \<open>req.params.id\<close>, a route parameter (see
  \<open>decodeURIComponent\<close> below): \<open>undefined\<close> or a string given by its code points. An id
  is strictly equal to it when it is that string.
\<close>

definition codes :: "string \<Rightarrow> nat list" where
  "codes s = map of_char s"

definition get_product :: "product list \<Rightarrow> nat list option \<Rightarrow> js_error + response" where
  "get_product ps rid =
     (case find (\<lambda>p. Some (codes (id' p)) = rid) ps of
        None \<Rightarrow> Inl (NotFoundError ''Product not found'')
      | Some p \<Rightarrow> Inr \<lparr>status = 200, content = Json_product p\<rparr>)"

text \<open>\<open>POST /api/products\<close>; \<open>uuid\<close> is the value that \<open>uuidv4()\<close> returns.\<close>

definition create_product :: "string \<Rightarrow> product list \<Rightarrow> jsobject \<Rightarrow> product list \<times> response" where
  "create_product uuid ps b =
     (let newProduct =
            \<lparr>id' = uuid, name = field b ''name'', description = field b ''description'',
             price = JNum (parseFloat (field b ''price'')), category = field b ''category'',
             inStock = field b ''inStock''\<rparr>
      in (ps @ [newProduct], \<lparr>status = 201, content = Json_product newProduct\<rparr>))"

fun findIndex :: "('a \<Rightarrow> bool) \<Rightarrow> 'a list \<Rightarrow> nat option" where
  "findIndex P [] = None"
| "findIndex P (x # xs) = (if P x then Some 0 else map_option Suc (findIndex P xs))"

text \<open>\<open>PUT /api/products/:id\<close>.\<close>

definition update_product ::
  "product list \<Rightarrow> nat list option \<Rightarrow> jsobject \<Rightarrow> product list \<times> (js_error + response)" where
  "update_product ps rid b =
     (case findIndex (\<lambda>p. Some (codes (id' p)) = rid) ps of
        None \<Rightarrow> (ps, Inl (NotFoundError ''Product not found''))
      | Some productIndex \<Rightarrow>
          (let updated =
                 (ps ! productIndex)
                   \<lparr>name := field b ''name'', description := field b ''description'',
                    price := JNum (parseFloat (field b ''price'')),
                    category := field b ''category'', inStock := field b ''inStock''\<rparr>
           in (ps[productIndex := updated],
               Inr \<lparr>status = 200, content = Json_product updated\<rparr>)))"

text \<open>\<open>DELETE /api/products/:id\<close>.\<close>

definition delete_product ::
  "product list \<Rightarrow> nat list option \<Rightarrow> product list \<times> (js_error + response)" where
  "delete_product ps rid =
     (case findIndex (\<lambda>p. Some (codes (id' p)) = rid) ps of
        None \<Rightarrow> (ps, Inl (NotFoundError ''Product not found''))
      | Some productIndex \<Rightarrow>
          (filter (\<lambda>p. Some (codes (id' p)) \<noteq> rid) ps,
           Inr \<lparr>status = 204, content = No_content\<rparr>))"

subsection \<open>Statistics\<close>

text \<open>
  The conversion of a value to a string. The digits that a finite number prints with
  (the shortest that read back as the same double) are not modelled: the printer \<open>ns\<close> of
  finite numbers is a parameter.
\<close>

fun toString :: "(rat \<Rightarrow> string) \<Rightarrow> jsval \<Rightarrow> string" where
  "toString ns JUndefined = ''undefined''"
| "toString ns JNull = ''null''"
| "toString ns (JBool b) = (if b then ''true'' else ''false'')"
| "toString ns (JNum NaN) = ''NaN''"
| "toString ns (JNum PosInf) = ''Infinity''"
| "toString ns (JNum NegInf) = ''-Infinity''"
| "toString ns (JNum (Fin r)) = ns r"
| "toString ns (JStr s) = s"

text \<open>\<open>a + b\<close>: concatenation when either side is a string, numeric addition otherwise.\<close>

definition js_plus :: "(rat \<Rightarrow> string) \<Rightarrow> jsval \<Rightarrow> jsval \<Rightarrow> jsval" where
  "js_plus ns a b =
     (if typeof a = ''string'' \<or> typeof b = ''string''
      then JStr (toString ns a @ toString ns b)
      else JNum (num_add (toNumber a) (toNumber b)))"

fun lookup_truthy :: "jsnum lookup \<Rightarrow> bool" where
  "lookup_truthy (Own n) = num_truthy n"
| "lookup_truthy Inherited = True"
| "lookup_truthy Absent = False"

fun lookup_number :: "jsnum lookup \<Rightarrow> jsnum" where
  "lookup_number (Own n) = n"
| "lookup_number Inherited = NaN"
| "lookup_number Absent = NaN"

text \<open>
  The body of the \<open>forEach\<close>, for the key \<open>k\<close> of one product:
  \<^verbatim>\<open>if (!stats.categories[k]) stats.categories[k] = 0; stats.categories[k]++;\<close>
\<close>

definition count_category :: "(string \<times> jsnum) list \<Rightarrow> string \<Rightarrow> (string \<times> jsnum) list" where
  "count_category cats k =
     (let cats1 = (if \<not> lookup_truthy (get_prop cats k) then set_prop k (Fin 0) cats else cats)
      in set_prop k (num_add (lookup_number (get_prop cats1 k)) (Fin 1)) cats1)"

text \<open>The handler registered for \<open>GET /api/products/stats\<close>.\<close>

definition product_stats :: "(rat \<Rightarrow> string) \<Rightarrow> product list \<Rightarrow> response" where
  "product_stats ns ps =
     (let stats =
            \<lparr>totalProducts = length ps,
             categories = [],
             inStockCount = length (filter (\<lambda>p. truthy (inStock p)) ps),
             outOfStockCount = length (filter (\<lambda>p. \<not> truthy (inStock p)) ps),
             averagePrice =
               or_zero (num_div_length
                          (toNumber (foldl (\<lambda>sum p. js_plus ns sum (price p)) (JNum (Fin 0)) ps))
                          (length ps))\<rparr>;
          stats = stats\<lparr>categories :=
                    foldl (\<lambda>cats p. count_category cats (toString ns (category p)))
                      (categories stats) ps\<rparr>
      in \<lparr>status = 200, content = Json_stats stats\<rparr>)"

section \<open>Routing\<close>

subsection \<open>Route parameters\<close>

text \<open>
  Express passes the text that a parameter such as \<open>:id\<close> matched through
  \<open>decodeURIComponent\<close>. An escape \<open>%XX\<close> is a byte; a byte below 128 is a character, a
  greater one starts a UTF-8 sequence of two to four escaped bytes, which must be
  well-formed (no overlong form, no surrogate, nothing above \<open>10FFFF\<close>). The decoded
  character may lie beyond the 8-bit characters of the model, so the result is the list of
  the code points; \<open>None\<close> stands for the \<open>URIError\<close> that a malformed escape throws.
\<close>

definition hex_byte :: "char \<Rightarrow> char \<Rightarrow> nat option" where
  "hex_byte a b =
     (if char_val a < 16 \<and> char_val b < 16 then Some (16 * char_val a + char_val b) else None)"

text \<open>A text that consists of escapes only, as its bytes.\<close>

fun escaped_bytes :: "string \<Rightarrow> nat list option" where
  "escaped_bytes [] = Some []"
| "escaped_bytes (p # a # b # s) =
     (if p = CHR ''%''
      then (case hex_byte a b of
              None \<Rightarrow> None
            | Some B \<Rightarrow> map_option ((#) B) (escaped_bytes s))
      else None)"
| "escaped_bytes s = None"

definition continuation :: "nat \<Rightarrow> bool" where
  "continuation b = (128 \<le> b \<and> b \<le> 191)"

text \<open>The code point that a sequence of bytes encodes in UTF-8, if it is well-formed.\<close>

fun utf8_code_point :: "nat list \<Rightarrow> nat option" where
  "utf8_code_point [a, b] =
     (if 194 \<le> a \<and> a \<le> 223 \<and> continuation b
      then Some ((a - 192) * 64 + (b - 128)) else None)"
| "utf8_code_point [a, b, c] =
     (if 224 \<le> a \<and> a \<le> 239 \<and> continuation b \<and> continuation c
         \<and> (if a = 224 then 160 else 128) \<le> b \<and> b \<le> (if a = 237 then 159 else 191)
      then Some ((a - 224) * 4096 + (b - 128) * 64 + (c - 128)) else None)"
| "utf8_code_point [a, b, c, d] =
     (if 240 \<le> a \<and> a \<le> 244 \<and> continuation b \<and> continuation c \<and> continuation d
         \<and> (if a = 240 then 144 else 128) \<le> b \<and> b \<le> (if a = 244 then 143 else 191)
      then Some ((a - 240) * 262144 + (b - 128) * 4096 + (c - 128) * 64 + (d - 128))
      else None)"
| "utf8_code_point bs = None"

text \<open>The number of bytes of the sequence that a byte of 128 or more starts; 0 if none.\<close>

definition sequence_length :: "nat \<Rightarrow> nat" where
  "sequence_length B =
     (if 192 \<le> B \<and> B < 224 then 2 else if 224 \<le> B \<and> B < 240 then 3
      else if 240 \<le> B \<and> B < 248 then 4 else 0)"

fun decodeURIComponent :: "string \<Rightarrow> nat list option" where
  "decodeURIComponent [] = Some []"
| "decodeURIComponent (c # s) =
     (if c \<noteq> CHR ''%'' then map_option ((#) (of_char c)) (decodeURIComponent s)
      else
        (case s of
           a # b # rest \<Rightarrow>
             (case hex_byte a b of
                None \<Rightarrow> None
              | Some B \<Rightarrow>
                  if B < 128 then map_option ((#) B) (decodeURIComponent rest)
                  else
                    (let n = sequence_length B in
                     if n = 0 \<or> length rest < 3 * (n - 1) then None
                     else
                       (case escaped_bytes (take (3 * (n - 1)) rest) of
                          None \<Rightarrow> None
                        | Some bs \<Rightarrow>
                            (case utf8_code_point (B # bs) of
                               None \<Rightarrow> None
                             | Some V \<Rightarrow>
                                 map_option ((#) V)
                                   (decodeURIComponent (drop (3 * (n - 1)) rest))))))
         | _ \<Rightarrow> None))"

text \<open>
  Express turns the \<open>URIError\<close> into an error with the status code 400. The parameters
  of a route are decoded in the order of the pattern.
\<close>

definition decode_error :: "string \<Rightarrow> js_error" where
  "decode_error val =
     \<lparr>error_name = ''URIError'',
      message = ''Failed to decode param '' @ [CHR 0x27] @ val @ [CHR 0x27],
      statusCode = Some 400, errors = None\<rparr>"

fun decode_params :: "(string \<times> string) list \<Rightarrow> js_error + (string \<times> nat list) list" where
  "decode_params [] = Inr []"
| "decode_params ((n, val) # rest) =
     (case decodeURIComponent val of
        None \<Rightarrow> Inl (decode_error val)
      | Some v \<Rightarrow>
          (case decode_params rest of
             Inl e \<Rightarrow> Inl e
           | Inr params \<Rightarrow> Inr ((n, v) # params)))"

subsection \<open>Routes\<close>

text \<open>
  A route is a method, a path pattern, the middleware named in its registration and its
  handler. A pattern matches a path segment by segment: a literal matches the segment
  that is equal to it up to the case of the letters (routing is not case-sensitive), a
  parameter such as \<open>:id\<close> any non-empty segment; and one slash at the end of the path is
  accepted (routing is not strict). The match gives each parameter the text of its
  segment.
\<close>

datatype segment = Lit string | Param string

fun match_path :: "segment list \<Rightarrow> string list \<Rightarrow> (string \<times> string) list option" where
  "match_path [] [] = Some []"
| "match_path [] [x] = (if x = [] then Some [] else None)"
| "match_path [] (x # y # xs) = None"
| "match_path (Lit s # pat) (x # xs) =
     (if toLowerCase x = toLowerCase s then match_path pat xs else None)"
| "match_path (Param n # pat) (x # xs) =
     (if x = [] then None else map_option ((#) (n, x)) (match_path pat xs))"
| "match_path (sg # pat) [] = None"

datatype handler =
  Root | GetProducts | GetProduct | CreateProduct | UpdateProduct | DeleteProduct | ProductStats

record route =
  route_method :: http_method
  route_path :: "segment list"
  route_middleware :: "(request \<Rightarrow> response option) list"
  route_handler :: handler

definition routes :: "route list" where
  "routes =
     [\<lparr>route_method = GET, route_path = [],
       route_middleware = [], route_handler = Root\<rparr>,
      \<lparr>route_method = GET, route_path = [Lit ''api'', Lit ''products''],
       route_middleware = [], route_handler = GetProducts\<rparr>,
      \<lparr>route_method = GET, route_path = [Lit ''api'', Lit ''products'', Param ''id''],
       route_middleware = [], route_handler = GetProduct\<rparr>,
      \<lparr>route_method = POST, route_path = [Lit ''api'', Lit ''products''],
       route_middleware = [apiKeyMiddleware, validateProduct], route_handler = CreateProduct\<rparr>,
      \<lparr>route_method = PUT, route_path = [Lit ''api'', Lit ''products'', Param ''id''],
       route_middleware = [apiKeyMiddleware, validateProduct], route_handler = UpdateProduct\<rparr>,
      \<lparr>route_method = DELETE, route_path = [Lit ''api'', Lit ''products'', Param ''id''],
       route_middleware = [apiKeyMiddleware], route_handler = DeleteProduct\<rparr>,
      \<lparr>route_method = GET, route_path = [Lit ''api'', Lit ''products'', Lit ''stats''],
       route_middleware = [], route_handler = ProductStats\<rparr>]"

text \<open>
  Express tries the routes in the order of their registration. For each it matches the
  path first and decodes the parameters, and only then looks at the method; the first
  route whose path and method match runs. A parameter that fails to decode ends the
  search with its error, whatever the method of the route.
\<close>

fun find_route ::
  "route list \<Rightarrow> http_method \<Rightarrow> string list
     \<Rightarrow> js_error + (route \<times> (string \<times> nat list) list) option" where
  "find_route [] m p = Inr None"
| "find_route (r # rs) m p =
     (case match_path (route_path r) p of
        None \<Rightarrow> find_route rs m p
      | Some matched \<Rightarrow>
          (case decode_params matched of
             Inl e \<Rightarrow> Inl e
           | Inr params \<Rightarrow>
               if route_method r = m then Inr (Some (r, params)) else find_route rs m p))"

fun run_middleware :: "(request \<Rightarrow> response option) list \<Rightarrow> request \<Rightarrow> response option" where
  "run_middleware [] req = None"
| "run_middleware (mw # mws) req =
     (case mw req of Some resp \<Rightarrow> Some resp | None \<Rightarrow> run_middleware mws req)"

text \<open>
  A handler returns the store it leaves and either the response it sent or the error it
  threw; \<open>map_of params ''id''\<close> is \<open>req.params.id\<close>.
\<close>

fun run_handler ::
  "(rat \<Rightarrow> string) \<Rightarrow> string \<Rightarrow> handler \<Rightarrow> (string \<times> nat list) list \<Rightarrow> request \<Rightarrow> product list
     \<Rightarrow> product list \<times> (js_error + response)" where
  "run_handler ns uuid Root params req ps =
     (ps, Inr \<lparr>status = 200, content = Text ''Products API - Use /api/products endpoints''\<rparr>)"
| "run_handler ns uuid GetProducts params req ps = (ps, get_products ps (query req))"
| "run_handler ns uuid GetProduct params req ps = (ps, get_product ps (map_of params ''id''))"
| "run_handler ns uuid CreateProduct params req ps =
     (case create_product uuid ps (body req) of (ps', resp) \<Rightarrow> (ps', Inr resp))"
| "run_handler ns uuid UpdateProduct params req ps =
     update_product ps (map_of params ''id'') (body req)"
| "run_handler ns uuid DeleteProduct params req ps = delete_product ps (map_of params ''id'')"
| "run_handler ns uuid ProductStats params req ps = (ps, Inr (product_stats ns ps))"

text \<open>
  One request that reached the routes, against the store \<open>ps\<close>: the new store and the
  response. A request that no route matches gets the framework's own 404; an error
  thrown by the routing or by a handler goes to the global error handler.
\<close>

definition handle_request ::
  "(rat \<Rightarrow> string) \<Rightarrow> string \<Rightarrow> product list \<Rightarrow> request \<Rightarrow> product list \<times> response" where
  "handle_request ns uuid ps req =
     (case find_route routes (req_method req) (path req) of
        Inl err \<Rightarrow> (ps, errorHandler err)
      | Inr None \<Rightarrow> (ps, \<lparr>status = 404, content = Default_not_found\<rparr>)
      | Inr (Some (r, params)) \<Rightarrow>
          (case run_middleware (route_middleware r) req of
             Some resp \<Rightarrow> (ps, resp)
           | None \<Rightarrow>
               (case run_handler ns uuid (route_handler r) params req ps of
                  (ps', Inr resp) \<Rightarrow> (ps', resp)
                | (ps', Inl err) \<Rightarrow> (ps', errorHandler err))))"

text \<open>
  The application. \<open>express.json()\<close> is registered first and runs on every request before
  the routes: it either hands on the request with its parsed body, or it fails, with a
  \<open>SyntaxError\<close> of status code 400 for a body that is not JSON, an error of status code
  413 for a body over the size limit, and so on. The text of a body is not modelled:
  \<open>body_error\<close> is the error that the parser raised for the request, if it raised one.
  The failure goes to the global error handler and no route runs.
\<close>

definition app ::
  "(rat \<Rightarrow> string) \<Rightarrow> string \<Rightarrow> product list \<Rightarrow> js_error option \<Rightarrow> request
     \<Rightarrow> product list \<times> response" where
  "app ns uuid ps body_error req =
     (case body_error of
        Some err \<Rightarrow> (ps, errorHandler err)
      | None \<Rightarrow> handle_request ns uuid ps req)"

text \<open>The error that \<open>express.json()\<close> raises for a body that is not JSON.\<close>

definition json_syntax_error :: "string \<Rightarrow> js_error" where
  "json_syntax_error msg =
     \<lparr>error_name = ''SyntaxError'', message = msg, statusCode = Some 400, errors = None\<rparr>"

section \<open>Notions used to state the properties\<close>

text \<open>
  The rule of the validator for each of the five fields, as a predicate on the request
  body: a name, description or category fails when it is missing or empty, which the
  code reads as falsy (absent, \<open>null\<close>, \<open>false\<close>, 0, \<open>NaN\<close> or the empty string); a
  price when it is falsy, not numeric or not above zero; and \<open>inStock\<close> when it is not a
  boolean.
\<close>

definition product_fields :: "string list" where
  "product_fields = [''name'', ''description'', ''price'', ''category'', ''inStock'']"

definition rule_fails :: "jsobject \<Rightarrow> string \<Rightarrow> bool" where
  "rule_fails b k =
     (let v = field b k in
      if k = ''name'' then \<not> truthy v
      else if k = ''description'' then \<not> truthy v
      else if k = ''price'' then \<not> truthy v \<or> isNaN v \<or> le_zero v
      else if k = ''category'' then \<not> truthy v
      else if k = ''inStock'' then typeof v \<noteq> ''boolean''
      else False)"

text \<open>
  A run of the server from a store: the requests in order, each with the id that
  \<open>uuidv4()\<close> returns if the request creates a product and with the error of the body
  parser, if any.
\<close>

fun serve ::
  "(rat \<Rightarrow> string) \<Rightarrow> product list \<Rightarrow> (string \<times> js_error option \<times> request) list
     \<Rightarrow> product list" where
  "serve ns ps [] = ps"
| "serve ns ps ((uuid, body_error, req) # rest) =
     serve ns (fst (app ns uuid ps body_error req)) rest"

text \<open>
  Two strings are equal ignoring case when they have the same length and agree position
  by position up to the case of each character; a string contains another ignoring case
  when some contiguous run of it is equal to the other ignoring case.
\<close>

definition equal_ignoring_case :: "string \<Rightarrow> string \<Rightarrow> bool" where
  "equal_ignoring_case a b = list_all2 (\<lambda>x y. lower_char x = lower_char y) a b"

definition contains_ignoring_case :: "string \<Rightarrow> string \<Rightarrow> bool" where
  "contains_ignoring_case hay needle =
     (\<exists>before run after. hay = before @ run @ after \<and> equal_ignoring_case run needle)"

definition category_matches :: "product \<Rightarrow> string \<Rightarrow> bool" where
  "category_matches p c = (case category p of JStr s \<Rightarrow> equal_ignoring_case s c | _ \<Rightarrow> False)"

definition name_contains :: "product \<Rightarrow> string \<Rightarrow> bool" where
  "name_contains p t = (case name p of JStr s \<Rightarrow> contains_ignoring_case s t | _ \<Rightarrow> False)"

text \<open>
  A query parameter that is absent or given once, as a plain string (not repeated, and
  without brackets).
\<close>

fun single_string :: "qval option \<Rightarrow> bool" where
  "single_string None = True"
| "single_string (Some (QStr s)) = True"
| "single_string (Some (QArr vs)) = False"
| "single_string (Some (QObj kvs)) = False"

text \<open>
  The text that \<open>parseInt\<close> reads for such a parameter: an absent one is \<open>undefined\<close>,
  which prints as that word.
\<close>

fun param_text :: "qval option \<Rightarrow> string" where
  "param_text (Some (QStr s)) = s"
| "param_text v = ''undefined''"

text \<open>
  The filtering as the specification words it: a filter applies whenever its parameter
  is present.
\<close>

definition filtered_as_stated :: "product list \<Rightarrow> (string \<times> qval) list \<Rightarrow> product list" where
  "filtered_as_stated ps q =
     (let by_category =
            (case map_of q ''category'' of
               Some (QStr c) \<Rightarrow> filter (\<lambda>p. category_matches p c) ps
             | _ \<Rightarrow> ps)
      in case map_of q ''search'' of
           Some (QStr t) \<Rightarrow> filter (\<lambda>p. name_contains p t) by_category
         | _ \<Rightarrow> by_category)"

text \<open>The same, with the category filter applied only for a non-empty parameter.\<close>

definition filtered_as_amended :: "product list \<Rightarrow> (string \<times> qval) list \<Rightarrow> product list" where
  "filtered_as_amended ps q =
     (let by_category =
            (case map_of q ''category'' of
               Some (QStr c) \<Rightarrow> if c = [] then ps else filter (\<lambda>p. category_matches p c) ps
             | _ \<Rightarrow> ps)
      in case map_of q ''search'' of
           Some (QStr t) \<Rightarrow> filter (\<lambda>p. name_contains p t) by_category
         | _ \<Rightarrow> by_category)"

text \<open>
  The window \<open>[a, b)\<close> of a sequence: its elements at the indices \<open>i\<close> with
  \<open>a \<le> i < b\<close>, in order.
\<close>

definition window :: "'a list \<Rightarrow> int \<Rightarrow> int \<Rightarrow> 'a list" where
  "window xs a b =
     map (\<lambda>i. xs ! i) (filter (\<lambda>i. a \<le> int i \<and> int i < b) [0..<length xs])"

text \<open>
  The index that a bound of \<open>slice\<close> stands for in a sequence of length \<open>len\<close>: the
  bound without its fraction, counted from the end of the sequence when it is negative;
  \<open>NaN\<close> stands for 0 and an infinity for the end on its side.
\<close>

fun counted_from_end :: "nat \<Rightarrow> jsnum \<Rightarrow> int" where
  "counted_from_end len NaN = 0"
| "counted_from_end len PosInf = int len"
| "counted_from_end len NegInf = 0"
| "counted_from_end len (Fin r) =
     (if r \<le> - 1 then int len + \<lceil>r\<rceil> else if r < 0 then 0 else \<lfloor>r\<rfloor>)"

text \<open>
  The histogram of a sequence of keys: each key once, in the order of its first
  occurrence, with the number of its occurrences.
\<close>

definition first_seen :: "'a list \<Rightarrow> 'a list" where
  "first_seen ks = rev (remdups (rev ks))"

definition histogram :: "string list \<Rightarrow> (string \<times> jsnum) list" where
  "histogram ks = map (\<lambda>k. (k, Fin (of_nat (count_list ks k)))) (first_seen ks)"

text \<open>
  A category that is a string, is not an array index and is not the name of a member of
  \<open>Object.prototype\<close>; and the text of such a category.
\<close>

definition plain_category :: "product \<Rightarrow> bool" where
  "plain_category p =
     (case category p of
        JStr s \<Rightarrow> \<not> is_array_index s \<and> s \<notin> set object_prototype_keys
      | _ \<Rightarrow> False)"

definition category_text :: "product \<Rightarrow> string" where
  "category_text p = (case category p of JStr s \<Rightarrow> s | _ \<Rightarrow> [])"

text \<open>A price that is a finite number, and its value.\<close>

definition finite_price :: "product \<Rightarrow> bool" where
  "finite_price p = (case price p of JNum (Fin r) \<Rightarrow> True | _ \<Rightarrow> False)"

definition price_value :: "product \<Rightarrow> rat" where
  "price_value p = (case price p of JNum (Fin r) \<Rightarrow> r | _ \<Rightarrow> 0)"

text \<open>The average price that the statistics of a store report.\<close>

definition averagePrice_of :: "product list \<Rightarrow> jsnum" where
  "averagePrice_of ps =
     (case content (product_stats (\<lambda>r. []) ps) of
        Json_stats stats \<Rightarrow> averagePrice stats
      | _ \<Rightarrow> NaN)"

text \<open>
  The mean of a sequence of prices as double arithmetic computes it: the prices are added
  from left to right, each sum rounded to a double, and the total is divided by the
  number of prices and rounded. The mean of no prices is taken to be 0.
\<close>

fun rounded_sum :: "jsnum \<Rightarrow> rat list \<Rightarrow> jsnum" where
  "rounded_sum acc [] = acc"
| "rounded_sum acc (r # rs) = rounded_sum (num_add acc (Fin r)) rs"

definition double_mean :: "rat list \<Rightarrow> jsnum" where
  "double_mean rs =
     (if rs = [] then Fin 0 else num_div_length (rounded_sum (Fin 0) rs) (length rs))"

text \<open>
  A rational that is a double, and a sequence whose sums from left to right, starting
  from \<open>acc\<close>, are all doubles: adding it up rounds nowhere.
\<close>

definition is_double :: "rat \<Rightarrow> bool" where
  "is_double r = (round_double r = Fin r)"

fun exact_sums :: "rat \<Rightarrow> rat list \<Rightarrow> bool" where
  "exact_sums acc [] = True"
| "exact_sums acc (r # rs) = (is_double (acc + r) \<and> exact_sums (acc + r) rs)"

section \<open>Properties\<close>

subsection \<open>Doubles\<close>

text \<open>Rules that evaluate \<open>round_double\<close> at a numeral.\<close>

lemma floor_rat_numeral: "\<lfloor>numeral a / numeral b :: rat\<rfloor> = numeral a div numeral b"
  by (metis floor_divide_of_int_eq of_int_numeral)

lemma ceiling_rat_numeral:
  "\<lceil>numeral a / numeral b :: rat\<rceil> = - ((- numeral a) div numeral b)"
  by (metis ceiling_def floor_divide_of_int_eq of_int_numeral of_int_minus minus_divide_left)

lemma floor_rat_one_numeral: "\<lfloor>1 / numeral b :: rat\<rfloor> = 1 div numeral b"
  by (metis floor_divide_of_int_eq of_int_numeral of_int_1)

lemma ceiling_rat_one_numeral: "\<lceil>1 / numeral b :: rat\<rceil> = - ((- 1) div numeral b)"
  by (metis ceiling_def floor_divide_of_int_eq of_int_numeral of_int_minus minus_divide_left
      of_int_1)

lemma bitlen_numeral: "bitlen (numeral n) = bitlen (numeral n div 2) + 1"
  by (subst compute_bitlen) simp

lemma bitlen_one: "bitlen 1 = 1"
  by (subst compute_bitlen) simp

lemmas double_eval =
  round_double_def floor_log2_def round_half_even_def pow2_def Let_def
  floor_rat_numeral ceiling_rat_numeral floor_rat_one_numeral ceiling_rat_one_numeral
  bitlen_numeral bitlen_one

text \<open>Rules that evaluate the conversions from text, up to the rounding.\<close>

lemmas parse_eval =
  string_to_number_def parseFloat_str_def parseInt_str_def trim_def trim_start_def is_ws_def
  literal_radix_def is_radix_digit_def parse_signed_def parse_unsigned_def is_digit_def
  parse_exponent_def digits_val_def char_val_def scale10_def

lemma round_double_zero [simp]: "round_double 0 = Fin 0"
  by (simp add: round_double_def)

text \<open>An integer of magnitude up to \<open>2^53\<close> is a double.\<close>

lemma round_half_even_of_int: "round_half_even (of_int k) = k"
  by (simp add: round_half_even_def)

lemma round_double_pos_int:
  assumes "0 < n" and "n \<le> 2 ^ 53"
  shows "round_double (of_int n) = Fin (of_int n)"
proof -
  define e where "e = bitlen n - 1"
  from assms(1) have bounds: "2 ^ nat e \<le> n" "n < 2 ^ nat (bitlen n)"
    unfolding e_def using bitlen_bounds [of n] by auto
  have "0 < bitlen n"
  proof (rule ccontr)
    assume "\<not> 0 < bitlen n"
    then have "nat (bitlen n) = 0" by simp
    with bounds(2) assms(1) show False by simp
  qed
  then have e0: "0 \<le> e"
    by (simp add: e_def)
  have "(2::int) ^ nat e \<le> 2 ^ 53"
    using bounds(1) assms(2) by linarith
  then have "nat e \<le> 53"
    using power_increasing_iff [of "2::int" "nat e" 53] by simp
  with e0 have e53: "e \<le> 53"
    by linarith
  have fl: "floor_log2 (of_int n) = e"
    using assms(1) by (simp add: floor_log2_def e_def)
  define q where "q = max e (- 1022) - 52"
  have q: "q = e - 52"
    using e0 by (simp add: q_def)
  have exact: "rat_of_int (round_half_even (of_int n / pow2 q)) * pow2 q = of_int n"
  proof (cases "e \<le> 52")
    case True
    define k where "k = nat (52 - e)"
    have "pow2 q = 1 / 2 ^ k"
    proof (cases "q = 0")
      case True
      then show ?thesis
        using q by (simp add: pow2_def k_def)
    next
      case False
      with q \<open>e \<le> 52\<close> have "q < 0" by linarith
      moreover have "nat (- q) = k"
        using q by (simp add: k_def)
      ultimately show ?thesis
        by (simp add: pow2_def)
    qed
    moreover have "rat_of_int n / (1 / 2 ^ k) = of_int (n * 2 ^ k)"
      by simp
    ultimately show ?thesis
      by (simp only: round_half_even_of_int) simp
  next
    case False
    with e53 have e: "e = 53" by linarith
    with bounds(1) assms(2) have n: "n = 2 ^ 53"
      by simp
    have "pow2 q = 2"
      using q e by (simp add: pow2_def)
    moreover have "rat_of_int n / 2 = of_int (2 ^ 52)"
      by (simp add: n)
    ultimately show ?thesis
      by (simp only: round_half_even_of_int)
  qed
  have small: "\<not> (2::rat) ^ 1024 \<le> of_int n"
  proof -
    have "rat_of_int n \<le> of_int (2 ^ 53)"
      using assms(2) by (simp only: of_int_le_iff)
    also have "\<dots> < 2 ^ 1024"
      by simp
    finally show ?thesis by simp
  qed
  from assms(1) have "round_double (of_int n) =
    (let v = rat_of_int (round_half_even (of_int n / pow2 q)) * pow2 q
     in if 2 ^ 1024 \<le> v then PosInf else Fin v)"
    by (simp add: round_double_def fl q_def Let_def)
  with exact small show ?thesis
    by (simp add: Let_def)
qed

lemma round_double_neg: "round_double (- r) = num_neg (round_double r)"
  by (simp add: round_double_def Let_def)

lemma round_double_int:
  assumes "\<bar>k\<bar> \<le> 2 ^ 53"
  shows "round_double (of_int k) = Fin (of_int k)"
proof -
  consider "k = 0" | "0 < k" | "k < 0" by linarith
  then show ?thesis
  proof cases
    case 1
    then show ?thesis by (simp add: round_double_def)
  next
    case 2
    with assms show ?thesis by (simp add: round_double_pos_int)
  next
    case 3
    with assms have "round_double (of_int (- k)) = Fin (of_int (- k))"
      by (intro round_double_pos_int) auto
    then have "num_neg (round_double (of_int k)) = Fin (- of_int k)"
      by (simp add: round_double_neg)
    then show ?thesis
      by (cases "round_double (of_int k)") auto
  qed
qed

lemma round_double_nat:
  assumes "n \<le> 2 ^ 53"
  shows "round_double (of_nat n) = Fin (of_nat n)"
proof -
  have "\<bar>int n\<bar> \<le> 2 ^ 53"
    using assms by (simp add: nat_le_iff of_nat_le_iff [of n "2 ^ 53", where ?'a = int, simplified])
  from round_double_int [OF this] show ?thesis by simp
qed

subsection \<open>Objects\<close>

lemma map_of_insert_index:
  "k \<notin> set (map fst obj) \<Longrightarrow> map_of (insert_index k v obj) x = ((map_of obj)(k \<mapsto> v)) x"
  by (induction obj) auto

lemma map_of_replace:
  "map_of (map (\<lambda>kv. if fst kv = k then (k, v) else kv) obj) x =
     (if x = k then map_option (\<lambda>u. v) (map_of obj k) else map_of obj x)"
  by (induction obj) auto

lemma map_of_own_set: "map_of (own_set k v obj) = (map_of obj)(k \<mapsto> v)"
proof (rule ext)
  fix x
  show "map_of (own_set k v obj) x = ((map_of obj)(k \<mapsto> v)) x"
  proof (cases "k \<in> set (map fst obj)")
    case True
    then obtain u where "map_of obj k = Some u"
      by (metis map_of_eq_None_iff not_Some_eq set_map)
    with True show ?thesis by (simp add: own_set_def map_of_replace)
  next
    case False
    then have "map_of obj k = None"
      by (simp add: map_of_eq_None_iff)
    with False show ?thesis
      by (auto simp: own_set_def map_of_insert_index map_add_def split: option.splits)
  qed
qed

lemma map_of_set_prop:
  "k \<noteq> ''__proto__'' \<Longrightarrow> map_of (set_prop k v obj) = (map_of obj)(k \<mapsto> v)"
  by (simp add: set_prop_def map_of_own_set)

subsection \<open>Validation\<close>

lemma falsy_values:
  "\<not> truthy v \<longleftrightarrow>
     v = JUndefined \<or> v = JNull \<or> v = JBool False \<or> v = JNum NaN \<or> v = JNum (Fin 0)
     \<or> v = JStr []"
proof (cases v)
  case (JNum n)
  then show ?thesis by (cases n) auto
qed auto

lemma validation_keys:
  "map fst (validation_errors b) = filter (rule_fails b) product_fields"
  by (simp add: validation_errors_def Let_def set_prop_def own_set_def is_array_index_def
      is_digit_def rule_fails_def product_fields_def)


lemma negative_price_message:
  "field b ''price'' = JNum (Fin r) \<Longrightarrow> r < 0 \<Longrightarrow>
   map_of (validation_errors b) ''price'' = Some ''Price must be a positive number''"
  by (simp add: validation_errors_def Let_def map_of_set_prop isNaN_def le_zero_def)

lemma zero_string_price_message:
  "field b ''price'' = JStr ''0'' \<Longrightarrow>
   map_of (validation_errors b) ''price'' = Some ''Price must be a positive number''"
  by (simp add: validation_errors_def Let_def map_of_set_prop isNaN_def le_zero_def
      string_to_number_def trim_def is_ws_def literal_radix_def parse_signed_def
      parse_unsigned_def is_digit_def parse_exponent_def digits_val_def char_val_def scale10_def)

text \<open>
  Claim C2. A price that is present but is the number 0 should be rejected with the
  message for a price that is not positive. The validator tests \<open>!price\<close> first, and 0 is
  falsy: the number 0 gets the message of a missing field, \<open>Price is required\<close>, and the
  test \<open>price <= 0\<close> behind the guard \<open>price &&\<close> is never reached for it. (A negative
  number and the string \<open>0\<close> do get \<open>Price must be a positive number\<close>:
  \<open>negative_price_message\<close>, \<open>zero_string_price_message\<close>.)
\<close>

theorem zero_price_reported_missing:
  "field b ''price'' = JNum (Fin 0) \<Longrightarrow>
   map_of (validation_errors b) ''price'' = Some ''Price is required''"
  by (simp add: validation_errors_def Let_def map_of_set_prop)

theorem zero_price_reported_missing_witness:
  "field [(''name'', JStr ''Laptop''), (''description'', JStr ''x''), (''price'', JNum (Fin 0)),
          (''category'', JStr ''c''), (''inStock'', JBool True)] ''price'' = JNum (Fin 0)
   \<and> map_of (validation_errors
        [(''name'', JStr ''Laptop''), (''description'', JStr ''x''), (''price'', JNum (Fin 0)),
         (''category'', JStr ''c''), (''inStock'', JBool True)]) ''price''
       = Some ''Price is required''"
  using zero_price_reported_missing
    [of "[(''name'', JStr ''Laptop''), (''description'', JStr ''x''), (''price'', JNum (Fin 0)),
          (''category'', JStr ''c''), (''inStock'', JBool True)]"]
  by (simp add: field_def)

subsection \<open>Routing\<close>

declare decodeURIComponent.simps [simp del]

lemma codes_eq_iff [simp]: "codes a = codes b \<longleftrightarrow> a = b"
  by (simp add: codes_def inj_map_eq_map [OF inj_of_char])

text \<open>A segment without a percent sign decodes to itself.\<close>

lemma decode_plain:
  "CHR ''%'' \<notin> set s \<Longrightarrow> decodeURIComponent s = Some (codes s)"
  by (induction s) (auto simp: decodeURIComponent.simps codes_def)

lemma lower_char_percent:
  "lower_char c = CHR ''%'' \<longleftrightarrow> c = CHR ''%''"
  "CHR ''%'' = lower_char c \<longleftrightarrow> c = CHR ''%''"
  by (cases c; auto simp: lower_char_def is_upper_def)+

lemma toLowerCase_percent: "CHR ''%'' \<in> set (toLowerCase s) \<longleftrightarrow> CHR ''%'' \<in> set s"
  by (induction s) (auto simp: toLowerCase_def lower_char_percent)

lemma find_route_mem:
  "find_route rs m p = Inr (Some (r, params)) \<Longrightarrow>
   r \<in> set rs \<and> route_method r = m
   \<and> (\<exists>matched. match_path (route_path r) p = Some matched
                  \<and> decode_params matched = Inr params)"
  by (induction rs) (auto split: if_splits option.splits sum.splits)

text \<open>
  The routes of the paths \<open>/api/products\<close> and \<open>/api/products/:id\<close>, written in any letter
  case and with or without a slash at the end.
\<close>

lemma collection_path_route:
  assumes "p = [a, b] \<or> p = [a, b, []]"
    and "toLowerCase a = ''api''" and "toLowerCase b = ''products''"
  shows "find_route routes POST p =
       Inr (Some (\<lparr>route_method = POST, route_path = [Lit ''api'', Lit ''products''],
                   route_middleware = [apiKeyMiddleware, validateProduct],
                   route_handler = CreateProduct\<rparr>, []))"
    and "find_route routes GET p =
       Inr (Some (\<lparr>route_method = GET, route_path = [Lit ''api'', Lit ''products''],
                   route_middleware = [], route_handler = GetProducts\<rparr>, []))"
proof -
  have lits: "toLowerCase ''api'' = ''api''" "toLowerCase ''products'' = ''products''"
    by (simp_all add: toLowerCase_def lower_char_def is_upper_def)
  have m: "match_path [Lit ''api'', Lit ''products''] p = Some []"
    "match_path [Lit ''api'', Lit ''products'', Param ''id''] p = None" "match_path [] p = None"
    using assms by (auto simp: lits)
  from m show
    "find_route routes POST p =
       Inr (Some (\<lparr>route_method = POST, route_path = [Lit ''api'', Lit ''products''],
                   route_middleware = [apiKeyMiddleware, validateProduct],
                   route_handler = CreateProduct\<rparr>, []))"
    "find_route routes GET p =
       Inr (Some (\<lparr>route_method = GET, route_path = [Lit ''api'', Lit ''products''],
                   route_middleware = [], route_handler = GetProducts\<rparr>, []))"
    by (simp_all add: routes_def)
qed

lemma product_path_route:
  assumes "p = [a, b, seg] \<or> p = [a, b, seg, []]"
    and "toLowerCase a = ''api''" and "toLowerCase b = ''products''"
    and "seg \<noteq> []" and "decodeURIComponent seg = Some v"
  shows "find_route routes PUT p =
       Inr (Some (\<lparr>route_method = PUT, route_path = [Lit ''api'', Lit ''products'', Param ''id''],
                   route_middleware = [apiKeyMiddleware, validateProduct],
                   route_handler = UpdateProduct\<rparr>, [(''id'', v)]))"
    and "find_route routes DELETE p =
       Inr (Some (\<lparr>route_method = DELETE,
                   route_path = [Lit ''api'', Lit ''products'', Param ''id''],
                   route_middleware = [apiKeyMiddleware],
                   route_handler = DeleteProduct\<rparr>, [(''id'', v)]))"
    and "find_route routes GET p =
       Inr (Some (\<lparr>route_method = GET, route_path = [Lit ''api'', Lit ''products'', Param ''id''],
                   route_middleware = [], route_handler = GetProduct\<rparr>, [(''id'', v)]))"
proof -
  have lits: "toLowerCase ''api'' = ''api''" "toLowerCase ''products'' = ''products''"
    by (simp_all add: toLowerCase_def lower_char_def is_upper_def)
  have m: "match_path [Lit ''api'', Lit ''products'', Param ''id''] p = Some [(''id'', seg)]"
    "match_path [Lit ''api'', Lit ''products''] p = None" "match_path [] p = None"
    using assms(1-4) by (auto simp: lits)
  from m assms(5) show
    "find_route routes PUT p =
       Inr (Some (\<lparr>route_method = PUT, route_path = [Lit ''api'', Lit ''products'', Param ''id''],
                   route_middleware = [apiKeyMiddleware, validateProduct],
                   route_handler = UpdateProduct\<rparr>, [(''id'', v)]))"
    "find_route routes DELETE p =
       Inr (Some (\<lparr>route_method = DELETE,
                   route_path = [Lit ''api'', Lit ''products'', Param ''id''],
                   route_middleware = [apiKeyMiddleware],
                   route_handler = DeleteProduct\<rparr>, [(''id'', v)]))"
    "find_route routes GET p =
       Inr (Some (\<lparr>route_method = GET, route_path = [Lit ''api'', Lit ''products'', Param ''id''],
                   route_middleware = [], route_handler = GetProduct\<rparr>, [(''id'', v)]))"
    by (simp_all add: routes_def)
qed

text \<open>A request whose body the parser accepted goes to the routes.\<close>

lemma app_parsed: "app ns uuid ps None req = handle_request ns uuid ps req"
  by (simp add: app_def)

lemmas route_eval =
  routes_def toLowerCase_def lower_char_def is_upper_def decodeURIComponent.simps codes_def
  hex_byte_def char_val_def

lemma apiKeyMiddleware_rejects:
  "map_of (headers req) ''x-api-key'' \<noteq> Some ''secret-api-key'' \<Longrightarrow>
   apiKeyMiddleware req =
     Some \<lparr>status = 401, content = Json_message ''Unauthorized: Invalid API key'' None\<rparr>"
  by (simp add: apiKeyMiddleware_def Let_def)

lemma apiKeyMiddleware_passes:
  "map_of (headers req) ''x-api-key'' = Some ''secret-api-key'' \<Longrightarrow>
   apiKeyMiddleware req = None"
  by (simp add: apiKeyMiddleware_def Let_def)

lemma validateProduct_passes:
  "validation_errors (body req) = [] \<Longrightarrow> validateProduct req = None"
  by (simp add: validateProduct_def Let_def)

subsection \<open>The middleware chain\<close>

lemma mutating_route_auth_first:
  "r \<in> set routes \<Longrightarrow> route_method r \<noteq> GET \<Longrightarrow>
   \<exists>rest. route_middleware r = apiKeyMiddleware # rest"
  by (auto simp: routes_def)





subsection \<open>The auth gate\<close>

text \<open>
  Claim C7, as stated: every request to a mutating endpoint without the right
  \<open>x-api-key\<close> header gets 401. It fails, because two stages run before the auth gate.
  The body parser is registered for every request, so a \<open>POST\<close> without a key whose body
  is not JSON gets the 400 of the parser's error; and a route decodes its parameter when
  it matches the path, so a \<open>DELETE\<close> without a key whose id is a malformed escape gets
  the 400 of the decoding error.
\<close>

theorem rejected_before_auth_gate:
  "app (\<lambda>r. []) ''u3'' (seed_products ''u1'' ''u2'')
     (Some (json_syntax_error ''Unexpected end of JSON input''))
     \<lparr>req_method = POST, path = [''api'', ''products''], headers = [], query = [], body = []\<rparr>
   = (seed_products ''u1'' ''u2'',
      \<lparr>status = 400, content = Json_message ''Unexpected end of JSON input'' None\<rparr>)
   \<and> status (snd (app (\<lambda>r. []) ''u3'' (seed_products ''u1'' ''u2'') None
        \<lparr>req_method = DELETE, path = [''api'', ''products'', ''%zz''], headers = [],
         query = [], body = []\<rparr>)) = 400"
  by (simp add: app_def errorHandler_def json_syntax_error_def handle_request_def route_eval
      decode_error_def)

text \<open>
  Claim C7, amended. Take a request whose body the parser accepted (or that has none),
  to a mutating endpoint: \<open>POST /api/products\<close>, or \<open>PUT\<close> or \<open>DELETE\<close> of
  \<open>/api/products/:id\<close> with an id that decodes, the path in any letter case and with or
  without a slash at the end. If its \<open>x-api-key\<close> header is missing or is not exactly the
  shared secret, it gets 401 and the store is left as it was. The response does not
  depend on the body: the validator and the handler are not reached.
\<close>

theorem unauthorized_request_rejected:
  assumes endpoint:
      "(req_method req = POST \<and> (path req = [a, b] \<or> path req = [a, b, []])) \<or>
       ((req_method req = PUT \<or> req_method req = DELETE)
        \<and> (path req = [a, b, seg] \<or> path req = [a, b, seg, []])
        \<and> seg \<noteq> [] \<and> decodeURIComponent seg \<noteq> None)"
    and api: "toLowerCase a = ''api''" "toLowerCase b = ''products''"
    and key: "map_of (headers req) ''x-api-key'' \<noteq> Some ''secret-api-key''"
  shows "app ns uuid ps None req =
           (ps, \<lparr>status = 401, content = Json_message ''Unauthorized: Invalid API key'' None\<rparr>)"
proof -
  from endpoint api obtain r params where
    route: "find_route routes (req_method req) (path req) = Inr (Some (r, params))"
    and mutating: "req_method req \<noteq> GET"
    by (auto simp: collection_path_route(1) product_path_route(1,2))
  from route have "r \<in> set routes" and "route_method r = req_method req"
    by (auto dest: find_route_mem)
  with mutating obtain rest where mw: "route_middleware r = apiKeyMiddleware # rest"
    using mutating_route_auth_first by metis
  with route apiKeyMiddleware_rejects [OF key] show ?thesis
    by (simp add: app_def handle_request_def)
qed

theorem unauthorized_request_rejected_witness:
  "map_of [(''x-api-key'', ''Secret-Api-Key'')] ''x-api-key'' \<noteq> Some ''secret-api-key''
   \<and> decodeURIComponent ''u%31'' \<noteq> None
   \<and> app (\<lambda>r. []) ''u3'' (seed_products ''u1'' ''u2'') None
        \<lparr>req_method = DELETE, path = [''api'', ''Products'', ''u%31'', []],
         headers = [(''x-api-key'', ''Secret-Api-Key'')], query = [], body = []\<rparr>
       = (seed_products ''u1'' ''u2'',
          \<lparr>status = 401, content = Json_message ''Unauthorized: Invalid API key'' None\<rparr>)
   \<and> app (\<lambda>r. []) ''u3'' (seed_products ''u1'' ''u2'') None
        \<lparr>req_method = POST, path = [''api'', ''products''], headers = [], query = [],
         body = [(''name'', JStr ''Pen'')]\<rparr>
       = (seed_products ''u1'' ''u2'',
          \<lparr>status = 401, content = Json_message ''Unauthorized: Invalid API key'' None\<rparr>)"
  using unauthorized_request_rejected
    [of "\<lparr>req_method = DELETE, path = [''api'', ''Products'', ''u%31'', []],
         headers = [(''x-api-key'', ''Secret-Api-Key'')], query = [], body = []\<rparr>"
        "''api''" "''Products''" "''u%31''" "\<lambda>r. []" "''u3''" "seed_products ''u1'' ''u2''"]
    unauthorized_request_rejected
    [of "\<lparr>req_method = POST, path = [''api'', ''products''], headers = [], query = [],
         body = [(''name'', JStr ''Pen'')]\<rparr>"
        "''api''" "''products''" "[]" "\<lambda>r. []" "''u3''" "seed_products ''u1'' ''u2''"]
  by (simp add: toLowerCase_def lower_char_def is_upper_def decodeURIComponent.simps
      hex_byte_def char_val_def)

subsection \<open>The statistics route\<close>

lemma match_three_literals:
  assumes "match_path [Lit a, Lit b, Lit c] p = Some params"
  shows "\<exists>x y z. (p = [x, y, z] \<or> p = [x, y, z, []])
           \<and> toLowerCase x = toLowerCase a \<and> toLowerCase y = toLowerCase b
           \<and> toLowerCase z = toLowerCase c"
proof (cases p)
  case Nil
  with assms show ?thesis by simp
next
  case (Cons x xs)
  note p = this
  show ?thesis
  proof (cases xs)
    case Nil
    with assms p show ?thesis by (simp split: if_splits)
  next
    case (Cons y ys)
    note xs = this
    show ?thesis
    proof (cases ys)
      case Nil
      with assms p xs show ?thesis by (simp split: if_splits)
    next
      case (Cons z zs)
      note ys = this
      show ?thesis
      proof (cases zs)
        case Nil
        with assms p xs ys show ?thesis by (simp split: if_splits)
      next
        case (Cons w ws)
        with assms p xs ys show ?thesis
          by (cases ws) (simp_all split: if_splits)
      qed
    qed
  qed
qed

text \<open>No request runs the statistics handler: the route of the id lookup takes it.\<close>

lemma stats_handler_unreachable:
  assumes "find_route routes m p = Inr (Some (r, params))"
  shows "route_handler r \<noteq> ProductStats"
proof
  assume stats: "route_handler r = ProductStats"
  from assms obtain matched where "r \<in> set routes"
    and "match_path (route_path r) p = Some matched" and m: "route_method r = m"
    by (auto dest: find_route_mem)
  with stats have "match_path [Lit ''api'', Lit ''products'', Lit ''stats''] p = Some matched"
    and get: "m = GET"
    by (auto simp: routes_def)
  then obtain x y z where p: "p = [x, y, z] \<or> p = [x, y, z, []]"
    and x: "toLowerCase x = toLowerCase ''api''"
    and y: "toLowerCase y = toLowerCase ''products''"
    and z: "toLowerCase z = toLowerCase ''stats''"
    by (blast dest: match_three_literals)
  from z have "CHR ''%'' \<notin> set (toLowerCase z)"
    by (simp add: toLowerCase_def lower_char_def is_upper_def)
  then have "decodeURIComponent z = Some (codes z)"
    by (simp add: toLowerCase_percent decode_plain)
  moreover from z have "z \<noteq> []"
    by (auto simp: toLowerCase_def)
  ultimately have "find_route routes GET p =
      Inr (Some (\<lparr>route_method = GET, route_path = [Lit ''api'', Lit ''products'', Param ''id''],
                  route_middleware = [], route_handler = GetProduct\<rparr>, [(''id'', codes z)]))"
    using p x y by (auto simp: routes_def)
  with assms get have "route_handler r = GetProduct"
    by auto
  with stats show False by simp
qed

lemma get_product_not_found:
  "\<forall>p \<in> set ps. Some (codes (id' p)) \<noteq> rid \<Longrightarrow>
   get_product ps rid = Inl (NotFoundError ''Product not found'')"
proof -
  assume "\<forall>p \<in> set ps. Some (codes (id' p)) \<noteq> rid"
  then have "find (\<lambda>p. Some (codes (id' p)) = rid) ps = None"
    by (simp add: find_None_iff)
  then show ?thesis by (simp add: get_product_def)
qed

lemma errorHandler_NotFoundError:
  "errorHandler (NotFoundError msg) =
     \<lparr>status = 404, content = Json_message (if msg = [] then ''Internal Server Error'' else msg) None\<rparr>"
  by (simp add: errorHandler_def NotFoundError_def)

text \<open>
  Claim C1. A request \<open>GET /api/products/stats\<close> should reach the statistics handler and
  return 200 with the statistics. The route \<open>/api/products/:id\<close> is registered before
  \<open>/api/products/stats\<close> and matches the same path with \<open>id = stats\<close>, so the request is
  served as an id lookup: whenever no product has the id \<open>stats\<close> (ids are UUIDs) the
  response is 404 \<open>Product not found\<close>. No request at all reaches the statistics
  handler (\<open>stats_handler_unreachable\<close>).
\<close>

theorem stats_request_served_as_id_lookup:
  "\<forall>p \<in> set ps. id' p \<noteq> ''stats'' \<Longrightarrow>
   handle_request ns uuid ps
     \<lparr>req_method = GET, path = [''api'', ''products'', ''stats''], headers = h, query = q, body = b\<rparr>
   = (ps, \<lparr>status = 404, content = Json_message ''Product not found'' None\<rparr>)"
proof -
  assume absent: "\<forall>p \<in> set ps. id' p \<noteq> ''stats''"
  have "decodeURIComponent ''stats'' = Some (codes ''stats'')"
    by (rule decode_plain) simp
  with absent show ?thesis
    by (simp add: handle_request_def routes_def toLowerCase_def lower_char_def is_upper_def
        get_product_not_found errorHandler_NotFoundError)
qed

theorem stats_request_served_as_id_lookup_witness:
  "list_all (\<lambda>p. id' p \<noteq> ''stats'') (seed_products ''u1'' ''u2'')
   \<and> handle_request (\<lambda>r. []) ''u3'' (seed_products ''u1'' ''u2'')
     \<lparr>req_method = GET, path = [''api'', ''products'', ''stats''], headers = [], query = [], body = []\<rparr>
   = (seed_products ''u1'' ''u2'', \<lparr>status = 404, content = Json_message ''Product not found'' None\<rparr>)
   \<and> status (product_stats (\<lambda>r. []) (seed_products ''u1'' ''u2'')) = 200"
  using stats_request_served_as_id_lookup
    [of "seed_products ''u1'' ''u2''" "\<lambda>r. []" "''u3''" "[]" "[]" "[]"]
  by (simp add: seed_products_def product_stats_def Let_def)

subsection \<open>Update\<close>

lemma findIndex_first:
  "i < length xs \<Longrightarrow> P (xs ! i) \<Longrightarrow> \<forall>j<i. \<not> P (xs ! j) \<Longrightarrow> findIndex P xs = Some i"
proof (induction xs arbitrary: i)
  case Nil
  then show ?case by simp
next
  case (Cons x xs)
  show ?case
  proof (cases i)
    case 0
    with Cons.prems show ?thesis by simp
  next
    case (Suc k)
    with Cons.prems have "\<not> P x" by auto
    moreover from Suc Cons.prems have "findIndex P xs = Some k"
      by (intro Cons.IH) auto
    ultimately show ?thesis using Suc by simp
  qed
qed

lemma findIndex_none:
  "\<forall>x \<in> set xs. \<not> P x \<Longrightarrow> findIndex P xs = None"
  by (induction xs) auto

lemma findIndex_Some:
  "findIndex P xs = Some i \<Longrightarrow> i < length xs \<and> P (xs ! i)"
proof (induction xs arbitrary: i)
  case Nil
  then show ?case by simp
next
  case (Cons x xs)
  then show ?case
    by (cases "P x") (auto simp: nth_Cons')
qed

lemma update_route_runs:
  assumes "req_method req = PUT"
      "path req = [a, b, seg] \<or> path req = [a, b, seg, []]"
      "toLowerCase a = ''api''" "toLowerCase b = ''products''"
      "seg \<noteq> []" "decodeURIComponent seg = Some (codes rid)"
    and auth: "map_of (headers req) ''x-api-key'' = Some ''secret-api-key''"
    and valid: "validation_errors (body req) = []"
  shows "handle_request ns uuid ps req =
      (case update_product ps (Some (codes rid)) (body req) of
         (ps', Inr resp) \<Rightarrow> (ps', resp)
       | (ps', Inl err) \<Rightarrow> (ps', errorHandler err))"
proof -
  have "find_route routes (req_method req) (path req) =
       Inr (Some (\<lparr>route_method = PUT,
                   route_path = [Lit ''api'', Lit ''products'', Param ''id''],
                   route_middleware = [apiKeyMiddleware, validateProduct],
                   route_handler = UpdateProduct\<rparr>, [(''id'', codes rid)]))"
    unfolding assms(1) using assms(2-6) by (rule product_path_route(1))
  then show ?thesis
    by (simp add: handle_request_def apiKeyMiddleware_passes [OF auth]
        validateProduct_passes [OF valid])
qed

lemma update_product_found:
  assumes "i < length ps" "id' (ps ! i) = rid" "\<forall>j<i. id' (ps ! j) \<noteq> rid"
  shows "update_product ps (Some (codes rid)) b =
      (ps[i := \<lparr>id' = rid, name = field b ''name'', description = field b ''description'',
                 price = JNum (parseFloat (field b ''price'')),
                 category = field b ''category'', inStock = field b ''inStock''\<rparr>],
       Inr \<lparr>status = 200,
            content = Json_product
              \<lparr>id' = rid, name = field b ''name'', description = field b ''description'',
               price = JNum (parseFloat (field b ''price'')),
               category = field b ''category'', inStock = field b ''inStock''\<rparr>\<rparr>)"
proof -
  from assms have "findIndex (\<lambda>p. Some (codes (id' p)) = Some (codes rid)) ps = Some i"
    by (intro findIndex_first) auto
  moreover have "(ps ! i)\<lparr>name := field b ''name'', description := field b ''description'',
                   price := JNum (parseFloat (field b ''price'')),
                   category := field b ''category'', inStock := field b ''inStock''\<rparr>
              = \<lparr>id' = rid, name = field b ''name'', description = field b ''description'',
                 price = JNum (parseFloat (field b ''price'')),
                 category = field b ''category'', inStock = field b ''inStock''\<rparr>"
    using assms(2) by (cases "ps ! i") simp
  ultimately show ?thesis
    by (simp add: update_product_def Let_def)
qed

text \<open>
  Claim C8. Take an authorised \<open>PUT /api/products/:id\<close> whose payload passes validation:
  the path is \<open>/api/products/\<close> and a segment, in any letter case and with or without a
  slash at the end, and the segment decodes to the id \<open>rid\<close>. When the store holds the id,
  with \<open>i\<close> the index of the first record that has it, the record at \<open>i\<close> keeps its id and
  takes its five business fields from the payload (the price through \<open>parseFloat\<close>, which
  returns a number as it is), the response is 200 with the updated record, and the store
  keeps its length and the record at every other index. When no record has the id, the
  response is 404 \<open>Product not found\<close> and the store is unchanged.
\<close>

theorem update_replaces_record:
  assumes put: "req_method req = PUT"
      "path req = [a, b, seg] \<or> path req = [a, b, seg, []]"
      "toLowerCase a = ''api''" "toLowerCase b = ''products''"
      "seg \<noteq> []" "decodeURIComponent seg = Some (codes rid)"
    and auth: "map_of (headers req) ''x-api-key'' = Some ''secret-api-key''"
    and valid: "validation_errors (body req) = []"
  shows "(i < length ps \<and> id' (ps ! i) = rid \<and> (\<forall>j<i. id' (ps ! j) \<noteq> rid) \<longrightarrow>
            handle_request ns uuid ps req =
              (ps[i := \<lparr>id' = rid,
                         name = field (body req) ''name'',
                         description = field (body req) ''description'',
                         price = JNum (parseFloat (field (body req) ''price'')),
                         category = field (body req) ''category'',
                         inStock = field (body req) ''inStock''\<rparr>],
               \<lparr>status = 200,
                content = Json_product
                  \<lparr>id' = rid,
                   name = field (body req) ''name'',
                   description = field (body req) ''description'',
                   price = JNum (parseFloat (field (body req) ''price'')),
                   category = field (body req) ''category'',
                   inStock = field (body req) ''inStock''\<rparr>\<rparr>)
            \<and> length (fst (handle_request ns uuid ps req)) = length ps
            \<and> (\<forall>j<length ps. j \<noteq> i \<longrightarrow> fst (handle_request ns uuid ps req) ! j = ps ! j))
       \<and> (typeof (field (body req) ''price'') = ''number'' \<longrightarrow>
            JNum (parseFloat (field (body req) ''price'')) = field (body req) ''price'')
       \<and> ((\<forall>p \<in> set ps. id' p \<noteq> rid) \<longrightarrow>
            handle_request ns uuid ps req =
              (ps, \<lparr>status = 404, content = Json_message ''Product not found'' None\<rparr>))"
proof -
  have route:
    "find_route routes (req_method req) (path req) =
       Inr (Some (\<lparr>route_method = PUT,
                   route_path = [Lit ''api'', Lit ''products'', Param ''id''],
                   route_middleware = [apiKeyMiddleware, validateProduct],
                   route_handler = UpdateProduct\<rparr>, [(''id'', codes rid)]))"
    unfolding put(1) using put(2-6) by (rule product_path_route(1))
  note pass = apiKeyMiddleware_passes [OF auth] validateProduct_passes [OF valid]
  have run: "handle_request ns uuid ps req =
      (case update_product ps (Some (codes rid)) (body req) of
         (ps', Inr resp) \<Rightarrow> (ps', resp)
       | (ps', Inl err) \<Rightarrow> (ps', errorHandler err))"
    by (simp add: handle_request_def route pass)
  have found: "handle_request ns uuid ps req =
              (ps[i := \<lparr>id' = rid,
                         name = field (body req) ''name'',
                         description = field (body req) ''description'',
                         price = JNum (parseFloat (field (body req) ''price'')),
                         category = field (body req) ''category'',
                         inStock = field (body req) ''inStock''\<rparr>],
               \<lparr>status = 200,
                content = Json_product
                  \<lparr>id' = rid,
                   name = field (body req) ''name'',
                   description = field (body req) ''description'',
                   price = JNum (parseFloat (field (body req) ''price'')),
                   category = field (body req) ''category'',
                   inStock = field (body req) ''inStock''\<rparr>\<rparr>)"
    if "i < length ps" "id' (ps ! i) = rid" "\<forall>j<i. id' (ps ! j) \<noteq> rid"
  proof -
    from that have "findIndex (\<lambda>p. Some (codes (id' p)) = Some (codes rid)) ps = Some i"
      by (intro findIndex_first) auto
    moreover have "(ps ! i)\<lparr>name := field (body req) ''name'',
                     description := field (body req) ''description'',
                     price := JNum (parseFloat (field (body req) ''price'')),
                     category := field (body req) ''category'',
                     inStock := field (body req) ''inStock''\<rparr>
                = \<lparr>id' = rid,
                   name = field (body req) ''name'',
                   description = field (body req) ''description'',
                   price = JNum (parseFloat (field (body req) ''price'')),
                   category = field (body req) ''category'',
                   inStock = field (body req) ''inStock''\<rparr>"
      using that(2) by (cases "ps ! i") simp
    ultimately show ?thesis
      by (simp add: run update_product_def Let_def)
  qed
  have absent: "handle_request ns uuid ps req =
              (ps, \<lparr>status = 404, content = Json_message ''Product not found'' None\<rparr>)"
    if "\<forall>p \<in> set ps. id' p \<noteq> rid"
  proof -
    from that have "findIndex (\<lambda>p. Some (codes (id' p)) = Some (codes rid)) ps = None"
      by (intro findIndex_none) auto
    then show ?thesis
      by (simp add: run update_product_def errorHandler_NotFoundError)
  qed
  have number: "JNum (parseFloat (field (body req) ''price'')) = field (body req) ''price''"
    if "typeof (field (body req) ''price'') = ''number''"
    using that by (cases "field (body req) ''price''") simp_all
  show ?thesis
    using found absent number by simp
qed

theorem update_replaces_record_witness:
  "handle_request (\<lambda>r. []) ''u3'' (seed_products ''u1'' ''u2'')
     \<lparr>req_method = PUT, path = [''API'', ''products'', ''u%32'', []],
      headers = [(''x-api-key'', ''secret-api-key'')], query = [],
      body = [(''name'', JStr ''Phone''), (''description'', JStr ''d''), (''price'', JNum (Fin 5)),
              (''category'', JStr ''Gadgets''), (''inStock'', JBool False)]\<rparr>
   = ([\<lparr>id' = ''u1'', name = JStr ''Laptop'', description = JStr ''High performance laptop'',
        price = JNum (round_double 999.99), category = JStr ''Electronics'',
        inStock = JBool True\<rparr>,
       \<lparr>id' = ''u2'', name = JStr ''Phone'', description = JStr ''d'',
        price = JNum (Fin 5), category = JStr ''Gadgets'', inStock = JBool False\<rparr>],
      \<lparr>status = 200,
       content = Json_product
         \<lparr>id' = ''u2'', name = JStr ''Phone'', description = JStr ''d'',
          price = JNum (Fin 5), category = JStr ''Gadgets'', inStock = JBool False\<rparr>\<rparr>)
   \<and> handle_request (\<lambda>r. []) ''u3'' (seed_products ''u1'' ''u2'')
     \<lparr>req_method = PUT, path = [''api'', ''products'', ''u9''],
      headers = [(''x-api-key'', ''secret-api-key'')], query = [],
      body = [(''name'', JStr ''Phone''), (''description'', JStr ''d''), (''price'', JNum (Fin 5)),
              (''category'', JStr ''Gadgets''), (''inStock'', JBool False)]\<rparr>
   = (seed_products ''u1'' ''u2'',
      \<lparr>status = 404, content = Json_message ''Product not found'' None\<rparr>)"
  using update_replaces_record
    [of "\<lparr>req_method = PUT, path = [''API'', ''products'', ''u%32'', []],
      headers = [(''x-api-key'', ''secret-api-key'')], query = [],
      body = [(''name'', JStr ''Phone''), (''description'', JStr ''d''), (''price'', JNum (Fin 5)),
              (''category'', JStr ''Gadgets''), (''inStock'', JBool False)]\<rparr>"
        "''API''" "''products''" "''u%32''" "''u2''" 1 "seed_products ''u1'' ''u2''"
        "\<lambda>r. []" "''u3''"]
    update_replaces_record
    [of "\<lparr>req_method = PUT, path = [''api'', ''products'', ''u9''],
      headers = [(''x-api-key'', ''secret-api-key'')], query = [],
      body = [(''name'', JStr ''Phone''), (''description'', JStr ''d''), (''price'', JNum (Fin 5)),
              (''category'', JStr ''Gadgets''), (''inStock'', JBool False)]\<rparr>"
        "''api''" "''products''" "''u9''" "''u9''" 0 "seed_products ''u1'' ''u2''"
        "\<lambda>r. []" "''u3''"]
  by (simp add: seed_products_def field_def validation_errors_def isNaN_def le_zero_def
      toLowerCase_def lower_char_def is_upper_def decodeURIComponent.simps codes_def
      hex_byte_def char_val_def)

subsection \<open>Prices\<close>

lemma typeof_parseFloat: "typeof (JNum (parseFloat v)) = ''number''"
  by simp

lemma numeric_string_passes:
  assumes "field b ''price'' = JStr s" and "string_to_number s = Fin r" and "0 < r"
  shows "\<not> rule_fails b ''price''"
proof -
  from assms(2,3) have "s \<noteq> []"
    by (auto simp: string_to_number_def trim_def)
  with assms show ?thesis
    by (simp add: rule_fails_def isNaN_def le_zero_def)
qed

lemma create_route_runs:
  assumes "req_method req = POST" "path req = [a, b] \<or> path req = [a, b, []]"
      "toLowerCase a = ''api''" "toLowerCase b = ''products''"
    and auth: "map_of (headers req) ''x-api-key'' = Some ''secret-api-key''"
    and valid: "validation_errors (body req) = []"
  shows "handle_request ns uuid ps req =
      (ps @ [\<lparr>id' = uuid, name = field (body req) ''name'',
               description = field (body req) ''description'',
               price = JNum (parseFloat (field (body req) ''price'')),
               category = field (body req) ''category'',
               inStock = field (body req) ''inStock''\<rparr>],
       \<lparr>status = 201,
        content = Json_product
          \<lparr>id' = uuid, name = field (body req) ''name'',
           description = field (body req) ''description'',
           price = JNum (parseFloat (field (body req) ''price'')),
           category = field (body req) ''category'',
           inStock = field (body req) ''inStock''\<rparr>\<rparr>)"
proof -
  have "find_route routes (req_method req) (path req) =
       Inr (Some (\<lparr>route_method = POST, route_path = [Lit ''api'', Lit ''products''],
                   route_middleware = [apiKeyMiddleware, validateProduct],
                   route_handler = CreateProduct\<rparr>, []))"
    unfolding assms(1) using assms(2-4) by (rule collection_path_route(1))
  then show ?thesis
    by (simp add: handle_request_def apiKeyMiddleware_passes [OF auth]
        validateProduct_passes [OF valid] create_product_def Let_def)
qed

text \<open>Every handler keeps the prices of the store number-typed.\<close>

lemma run_handler_prices:
  assumes "\<forall>p \<in> set ps. typeof (price p) = ''number''"
    and "run_handler ns uuid h params req ps = (ps', res)"
  shows "\<forall>p \<in> set ps'. typeof (price p) = ''number''"
proof (cases h)
  case CreateProduct
  with assms show ?thesis
    by (auto simp: create_product_def Let_def)
next
  case UpdateProduct
  with assms show ?thesis
    by (auto simp: update_product_def Let_def split: option.splits
        dest!: set_update_subset_insert [THEN subsetD])
next
  case DeleteProduct
  with assms show ?thesis
    by (auto simp: delete_product_def split: option.splits)
qed (use assms in auto)

lemma handle_request_prices:
  assumes "\<forall>p \<in> set ps. typeof (price p) = ''number''"
  shows "\<forall>p \<in> set (fst (handle_request ns uuid ps req)). typeof (price p) = ''number''"
  using assms
  by (auto simp: handle_request_def split: option.splits prod.splits sum.splits
      dest: run_handler_prices)

lemma serve_prices:
  "\<forall>p \<in> set ps. typeof (price p) = ''number'' \<Longrightarrow>
   \<forall>p \<in> set (serve ns ps reqs). typeof (price p) = ''number''"
proof (induction reqs arbitrary: ps)
  case Nil
  then show ?case by simp
next
  case (Cons ur reqs)
  obtain uuid body_error req where ur: "ur = (uuid, body_error, req)"
    by (cases ur) auto
  from Cons.prems have
    "\<forall>p \<in> set (fst (app ns uuid ps body_error req)). typeof (price p) = ''number''"
    by (cases body_error) (simp_all add: app_def handle_request_prices)
  then show ?case
    by (simp add: ur Cons.IH)
qed

text \<open>
  Claim C10. Take an authorised request whose payload has a price given as a string
  that \<open>Number\<close> reads as a positive number, the other four fields passing their rules.
  The validator lets it through. If it is a \<open>POST /api/products\<close>, the store gains a
  record whose price is \<open>parseFloat\<close> of the string; if it is a \<open>PUT /api/products/:id\<close>
  of an id that the store holds, with \<open>i\<close> the index of the first record that has it,
  the record at \<open>i\<close> is replaced by one whose price is \<open>parseFloat\<close> of the string. That
  price has the type number, and after any run of requests from a store whose prices
  are numbers, the seed store among them, every price in the store is a number.
\<close>

theorem stored_price_is_number:
  fixes req :: request and s :: string
  defines "stored \<equiv> \<lambda>x.
      \<lparr>id' = x, name = field (body req) ''name'',
       description = field (body req) ''description'',
       price = JNum (parseFloat_str s),
       category = field (body req) ''category'',
       inStock = field (body req) ''inStock''\<rparr>"
  assumes auth: "map_of (headers req) ''x-api-key'' = Some ''secret-api-key''"
    and numeric: "field (body req) ''price'' = JStr s" "string_to_number s = Fin r" "0 < r"
    and others: "truthy (field (body req) ''name'')" "truthy (field (body req) ''description'')"
      "truthy (field (body req) ''category'')"
      "typeof (field (body req) ''inStock'') = ''boolean''"
    and api: "toLowerCase a = ''api''" "toLowerCase b = ''products''"
  shows "validateProduct req = None
     \<and> (req_method req = POST \<and> (path req = [a, b] \<or> path req = [a, b, []]) \<longrightarrow>
          app ns uuid ps None req =
            (ps @ [stored uuid], \<lparr>status = 201, content = Json_product (stored uuid)\<rparr>))
     \<and> (req_method req = PUT \<and> (path req = [a, b, seg] \<or> path req = [a, b, seg, []])
          \<and> seg \<noteq> [] \<and> decodeURIComponent seg = Some (codes rid)
          \<and> i < length ps \<and> id' (ps ! i) = rid \<and> (\<forall>j<i. id' (ps ! j) \<noteq> rid) \<longrightarrow>
          app ns uuid ps None req =
            (ps[i := stored rid], \<lparr>status = 200, content = Json_product (stored rid)\<rparr>))
     \<and> typeof (price (stored x)) = ''number''
     \<and> ((\<forall>p \<in> set qs. typeof (price p) = ''number'') \<longrightarrow>
          (\<forall>p \<in> set (serve ns qs reqs). typeof (price p) = ''number''))
     \<and> (\<forall>p \<in> set (serve ns (seed_products u1 u2) reqs). typeof (price p) = ''number'')"
proof -
  from numeric have "\<not> rule_fails (body req) ''price''"
    by (rule numeric_string_passes)
  with others have "filter (rule_fails (body req)) product_fields = []"
    by (simp add: product_fields_def rule_fails_def)
  then have valid: "validation_errors (body req) = []"
    using validation_keys [of "body req"] by simp
  then have passes: "validateProduct req = None"
    by (rule validateProduct_passes)
  have parsed: "parseFloat (field (body req) ''price'') = parseFloat_str s"
    by (simp add: numeric(1))
  have create: "app ns uuid ps None req =
            (ps @ [stored uuid], \<lparr>status = 201, content = Json_product (stored uuid)\<rparr>)"
    if "req_method req = POST" "path req = [a, b] \<or> path req = [a, b, []]"
    using create_route_runs [OF that api auth valid, of ns uuid ps]
    by (simp add: app_parsed parsed stored_def)
  have update: "app ns uuid ps None req =
            (ps[i := stored rid], \<lparr>status = 200, content = Json_product (stored rid)\<rparr>)"
    if "req_method req = PUT" "path req = [a, b, seg] \<or> path req = [a, b, seg, []]"
      "seg \<noteq> []" "decodeURIComponent seg = Some (codes rid)"
      "i < length ps" "id' (ps ! i) = rid" "\<forall>j<i. id' (ps ! j) \<noteq> rid"
    using update_route_runs [OF that(1,2) api that(3,4) auth valid, of ns uuid ps]
      update_product_found [OF that(5-7), of "body req"]
    by (simp add: app_parsed parsed stored_def)
  have seed: "\<forall>p \<in> set (seed_products u1 u2). typeof (price p) = ''number''"
    by (simp add: seed_products_def)
  show ?thesis
    using passes create update serve_prices [of qs ns reqs] serve_prices [OF seed, of ns reqs]
    by (simp add: stored_def)
qed

theorem stored_price_is_number_witness:
  "validateProduct
     \<lparr>req_method = POST, path = [''api'', ''products''],
      headers = [(''x-api-key'', ''secret-api-key'')], query = [],
      body = [(''name'', JStr ''Pen''), (''description'', JStr ''d''), (''price'', JStr ''10.5''),
              (''category'', JStr ''Office''), (''inStock'', JBool True)]\<rparr> = None
   \<and> app (\<lambda>r. []) ''u3'' (seed_products ''u1'' ''u2'') None
       \<lparr>req_method = POST, path = [''api'', ''products''],
        headers = [(''x-api-key'', ''secret-api-key'')], query = [],
        body = [(''name'', JStr ''Pen''), (''description'', JStr ''d''),
                (''price'', JStr ''10.5''), (''category'', JStr ''Office''),
                (''inStock'', JBool True)]\<rparr>
     = (seed_products ''u1'' ''u2'' @
          [\<lparr>id' = ''u3'', name = JStr ''Pen'', description = JStr ''d'',
            price = JNum (Fin (21 / 2)), category = JStr ''Office'', inStock = JBool True\<rparr>],
        \<lparr>status = 201,
         content = Json_product
           \<lparr>id' = ''u3'', name = JStr ''Pen'', description = JStr ''d'',
            price = JNum (Fin (21 / 2)), category = JStr ''Office'', inStock = JBool True\<rparr>\<rparr>)
   \<and> app (\<lambda>r. []) ''u4''
       (seed_products ''u1'' ''u2'' @
          [\<lparr>id' = ''u3'', name = JStr ''Pen'', description = JStr ''d'',
            price = JNum (Fin (21 / 2)), category = JStr ''Office'', inStock = JBool True\<rparr>])
       None
       \<lparr>req_method = PUT, path = [''api'', ''products'', ''u3''],
        headers = [(''x-api-key'', ''secret-api-key'')], query = [],
        body = [(''name'', JStr ''Pen''), (''description'', JStr ''d''),
                (''price'', JStr ''0.25''), (''category'', JStr ''Office''),
                (''inStock'', JBool False)]\<rparr>
     = (seed_products ''u1'' ''u2'' @
          [\<lparr>id' = ''u3'', name = JStr ''Pen'', description = JStr ''d'',
            price = JNum (Fin (1 / 4)), category = JStr ''Office'', inStock = JBool False\<rparr>],
        \<lparr>status = 200,
         content = Json_product
           \<lparr>id' = ''u3'', name = JStr ''Pen'', description = JStr ''d'',
            price = JNum (Fin (1 / 4)), category = JStr ''Office'', inStock = JBool False\<rparr>\<rparr>)
   \<and> list_all (\<lambda>p. typeof (price p) = ''number'')
       (serve (\<lambda>r. []) (seed_products ''u1'' ''u2'')
          [(''u3'', None,
            \<lparr>req_method = POST, path = [''api'', ''products''],
             headers = [(''x-api-key'', ''secret-api-key'')], query = [],
             body = [(''name'', JStr ''Pen''), (''description'', JStr ''d''),
                     (''price'', JStr ''10.5''), (''category'', JStr ''Office''),
                     (''inStock'', JBool True)]\<rparr>),
           (''u4'', None,
            \<lparr>req_method = PUT, path = [''api'', ''products'', ''u3''],
             headers = [(''x-api-key'', ''secret-api-key'')], query = [],
             body = [(''name'', JStr ''Pen''), (''description'', JStr ''d''),
                     (''price'', JStr ''0.25''), (''category'', JStr ''Office''),
                     (''inStock'', JBool False)]\<rparr>)])"
proof -
  let ?b1 = "[(''name'', JStr ''Pen''), (''description'', JStr ''d''), (''price'', JStr ''10.5''),
              (''category'', JStr ''Office''), (''inStock'', JBool True)]"
  let ?b2 = "[(''name'', JStr ''Pen''), (''description'', JStr ''d''), (''price'', JStr ''0.25''),
              (''category'', JStr ''Office''), (''inStock'', JBool False)]"
  let ?post = "\<lparr>req_method = POST, path = [''api'', ''products''],
                headers = [(''x-api-key'', ''secret-api-key'')], query = [], body = ?b1\<rparr>"
  let ?put = "\<lparr>req_method = PUT, path = [''api'', ''products'', ''u3''],
               headers = [(''x-api-key'', ''secret-api-key'')], query = [], body = ?b2\<rparr>"
  let ?pen = "\<lparr>id' = ''u3'', name = JStr ''Pen'', description = JStr ''d'',
               price = JNum (Fin (21 / 2)), category = JStr ''Office'', inStock = JBool True\<rparr>"
  let ?seed = "seed_products ''u1'' ''u2''"
  let ?run = "[(''u3'', None, ?post), (''u4'', None, ?put)]"
  have doubles: "round_double (21 / 2) = Fin (21 / 2)" "round_double (1 / 4) = Fin (1 / 4)"
    by (simp_all add: double_eval)
  have number: "string_to_number ''10.5'' = Fin (21 / 2)" "string_to_number ''0.25'' = Fin (1 / 4)"
    by (simp_all add: parse_eval doubles)
  have parsed: "parseFloat_str ''10.5'' = Fin (21 / 2)" "parseFloat_str ''0.25'' = Fin (1 / 4)"
    by (simp_all add: parse_eval doubles)
  have lits: "toLowerCase ''api'' = ''api''" "toLowerCase ''products'' = ''products''"
    by (simp_all add: toLowerCase_def lower_char_def is_upper_def)
  have id: "decodeURIComponent ''u3'' = Some (codes ''u3'')"
    by (rule decode_plain) simp
  note created = stored_price_is_number
    [where req = ?post and s = "''10.5''" and r = "21 / 2" and a = "''api''"
       and b = "''products''" and ns = "\<lambda>r. []" and uuid = "''u3''" and ps = ?seed
       and qs = ?seed and reqs = ?run]
  note updated = stored_price_is_number
    [where req = ?put and s = "''0.25''" and r = "1 / 4" and a = "''api''"
       and b = "''products''" and ns = "\<lambda>r. []" and uuid = "''u4''" and ps = "?seed @ [?pen]"
       and seg = "''u3''" and rid = "''u3''" and i = 2]
  from created have first:
    "validateProduct ?post = None"
    "app (\<lambda>r. []) ''u3'' ?seed None ?post =
       (?seed @ [?pen], \<lparr>status = 201, content = Json_product ?pen\<rparr>)"
    "list_all (\<lambda>p. typeof (price p) = ''number'') (serve (\<lambda>r. []) ?seed ?run)"
    by (simp_all add: field_def number parsed lits list_all_iff seed_products_def)
  have earlier: "\<forall>j<2. id' ((?seed @ [?pen]) ! j) \<noteq> ''u3''"
    by (auto simp: seed_products_def less_Suc_eq numeral_2_eq_2)
  from updated earlier have second:
    "app (\<lambda>r. []) ''u4'' (?seed @ [?pen]) None ?put =
      (?seed @
          [\<lparr>id' = ''u3'', name = JStr ''Pen'', description = JStr ''d'',
            price = JNum (Fin (1 / 4)), category = JStr ''Office'', inStock = JBool False\<rparr>],
        \<lparr>status = 200,
         content = Json_product
           \<lparr>id' = ''u3'', name = JStr ''Pen'', description = JStr ''d'',
            price = JNum (Fin (1 / 4)), category = JStr ''Office'', inStock = JBool False\<rparr>\<rparr>)"
    by (simp add: field_def number parsed lits id seed_products_def nth_append less_Suc_eq)
  from first second show ?thesis
    by simp
qed

subsection \<open>The error handler\<close>

text \<open>
  Claim C3, as stated: an error that is none of the recognised kinds gets status 500 and
  the generic message only. It fails: the handler sends \<open>err.message\<close> whenever that is
  not empty. A product whose category is not a string can be created (the validator only
  asks for a truthy category); a later listing with a \<open>category\<close> parameter calls
  \<open>toLowerCase\<close> on it, the runtime throws a \<open>TypeError\<close>, and the text of that error
  is the message of the 500 response.
\<close>

theorem internal_message_surfaced:
  "snd (handle_request (\<lambda>r. []) ''u4''
         (fst (handle_request (\<lambda>r. []) ''u3'' (seed_products ''u1'' ''u2'')
                \<lparr>req_method = POST, path = [''api'', ''products''],
                 headers = [(''x-api-key'', ''secret-api-key'')], query = [],
                 body = [(''name'', JStr ''Pen''), (''description'', JStr ''d''),
                         (''price'', JNum (Fin 2)), (''category'', JNum (Fin 5)),
                         (''inStock'', JBool True)]\<rparr>))
         \<lparr>req_method = GET, path = [''api'', ''products''], headers = [],
          query = [(''category'', QStr ''office'')], body = []\<rparr>)
   = \<lparr>status = 500, content = Json_message ''p.category.toLowerCase is not a function'' None\<rparr>
   \<and> ''p.category.toLowerCase is not a function'' \<noteq> ''Internal Server Error''"
proof -
  let ?b = "[(''name'', JStr ''Pen''), (''description'', JStr ''d''),
             (''price'', JNum (Fin 2)), (''category'', JNum (Fin 5)), (''inStock'', JBool True)]"
  have valid: "validation_errors ?b = []"
    by (simp add: validation_errors_def field_def isNaN_def le_zero_def)
  have created: "fst (handle_request (\<lambda>r. []) ''u3'' (seed_products ''u1'' ''u2'')
                \<lparr>req_method = POST, path = [''api'', ''products''],
                 headers = [(''x-api-key'', ''secret-api-key'')], query = [], body = ?b\<rparr>)
      = seed_products ''u1'' ''u2'' @
        [\<lparr>id' = ''u3'', name = JStr ''Pen'', description = JStr ''d'', price = JNum (Fin 2),
          category = JNum (Fin 5), inStock = JBool True\<rparr>]"
    by (simp add: handle_request_def routes_def apiKeyMiddleware_def validateProduct_def valid
        create_product_def field_def Let_def)
  show ?thesis
    unfolding created
    by (simp add: handle_request_def routes_def get_products_def filter_category_def
        seed_products_def toLowerCase_def lower_char_def is_upper_def errorHandler_def
        TypeError_def)
qed

text \<open>
  Claim C3, amended. An error that carries no status code (every error other than the
  source's own \<open>NotFoundError\<close> and \<open>ValidationError\<close>, so every runtime error) gets
  status 500; the message of the response is the error's own message, and the generic
  \<open>Internal Server Error\<close> only when the error's message is empty.
\<close>

theorem unrecognised_error_response:
  "statusCode err = None \<Longrightarrow>
   errorHandler err =
     \<lparr>status = 500,
      content = Json_message (if message err = [] then ''Internal Server Error'' else message err)
                  (errors err)\<rparr>"
  by (simp add: errorHandler_def)

theorem unrecognised_error_response_witness:
  "statusCode (TypeError ''p.category.toLowerCase is not a function'') = None
   \<and> errorHandler (TypeError ''p.category.toLowerCase is not a function'') =
       \<lparr>status = 500,
        content = Json_message ''p.category.toLowerCase is not a function'' None\<rparr>
   \<and> errorHandler (TypeError []) =
       \<lparr>status = 500, content = Json_message ''Internal Server Error'' None\<rparr>"
  using unrecognised_error_response [of "TypeError ''p.category.toLowerCase is not a function''"]
    unrecognised_error_response [of "TypeError []"]
  by (simp add: TypeError_def)

subsection \<open>Listing: filters\<close>

lemma toLowerCase_eq_iff:
  "toLowerCase a = toLowerCase b \<longleftrightarrow> equal_ignoring_case a b"
  by (simp add: toLowerCase_def equal_ignoring_case_def list_all2_eq [of "map lower_char a"]
      list_all2_map1 list_all2_map2)

lemma includes_str_sublist: "includes_str hay needle \<longleftrightarrow> sublist needle hay"
  by (induction hay) (simp_all add: sublist_Cons_right)

lemma includes_lower_iff:
  "includes_str (toLowerCase hay) (toLowerCase needle) \<longleftrightarrow> contains_ignoring_case hay needle"
proof
  assume "includes_str (toLowerCase hay) (toLowerCase needle)"
  then obtain ps ss where "map lower_char hay = ps @ map lower_char needle @ ss"
    by (auto simp: includes_str_sublist sublist_def toLowerCase_def)
  then obtain before rest where hay: "hay = before @ rest"
    and "map lower_char needle @ ss = map lower_char rest"
    unfolding map_eq_append_conv by blast
  then have "map lower_char rest = map lower_char needle @ ss"
    by simp
  then obtain run after where "rest = run @ after"
    and "map lower_char run = map lower_char needle"
    unfolding map_eq_append_conv by auto
  with hay show "contains_ignoring_case hay needle"
    unfolding contains_ignoring_case_def toLowerCase_eq_iff [symmetric] toLowerCase_def
    by blast
next
  assume "contains_ignoring_case hay needle"
  then obtain before run after where "hay = before @ run @ after"
    and "map lower_char run = map lower_char needle"
    unfolding contains_ignoring_case_def toLowerCase_eq_iff [symmetric] toLowerCase_def
    by blast
  then have "map lower_char hay = map lower_char before @ map lower_char needle @ map lower_char after"
    by simp
  then show "includes_str (toLowerCase hay) (toLowerCase needle)"
    unfolding includes_str_sublist sublist_def toLowerCase_def by blast
qed

lemma filter_throwing_total:
  "\<forall>x \<in> set xs. f x = Inr (P x) \<Longrightarrow> filter_throwing f xs = Inr (filter P xs)"
  by (induction xs) auto

lemma string_field: "typeof v = ''string'' \<Longrightarrow> \<exists>s. v = JStr s"
  by (cases v) simp_all

lemma single_string_cases:
  assumes "single_string v"
  obtains "v = None" | s where "v = Some (QStr s)"
  using assms by (cases v rule: single_string.cases) auto

lemma filter_category_strings:
  assumes "\<forall>p \<in> set ps. typeof (category p) = ''string''" and "single_string c"
  shows "filter_category ps c =
           Inr (case c of
                  Some (QStr s) \<Rightarrow> if s = [] then ps else filter (\<lambda>p. category_matches p s) ps
                | _ \<Rightarrow> ps)"
  using assms(2)
proof (cases rule: single_string_cases)
  case 1
  then show ?thesis by (simp add: filter_category_def)
next
  case (2 s)
  have "\<forall>p \<in> set ps.
          (case call_toLowerCase ''p.category'' (category p) of
             Inl e \<Rightarrow> Inl e
           | Inr l \<Rightarrow>
               (case q_toLowerCase ''req.query.category'' (QStr s) of
                  Inl e \<Rightarrow> Inl e
                | Inr r \<Rightarrow> Inr (l = r))) = Inr (category_matches p s)"
    using assms(1) by (auto simp: category_matches_def toLowerCase_eq_iff dest!: string_field)
  then show ?thesis
    using 2 by (simp add: filter_category_def filter_throwing_total)
qed

lemma contains_empty: "contains_ignoring_case s []"
  unfolding contains_ignoring_case_def equal_ignoring_case_def
  by (intro exI [of _ "[]"] exI [of _ s]) simp

lemma filter_search_strings:
  assumes "\<forall>p \<in> set ps. typeof (name p) = ''string''" and "single_string c"
  shows "filter_search ps c =
           Inr (case c of
                  Some (QStr t) \<Rightarrow> filter (\<lambda>p. name_contains p t) ps
                | _ \<Rightarrow> ps)"
  using assms(2)
proof (cases rule: single_string_cases)
  case 1
  then show ?thesis by (simp add: filter_search_def)
next
  case (2 t)
  show ?thesis
  proof (cases "t = []")
    case True
    have "\<forall>p \<in> set ps. name_contains p []"
      using assms(1) by (auto simp: name_contains_def contains_empty dest!: string_field)
    then have "filter (\<lambda>p. name_contains p []) ps = ps"
      by (simp add: filter_id_conv)
    with 2 True show ?thesis by (simp add: filter_search_def)
  next
    case False
    have "\<forall>p \<in> set ps.
          (case call_toLowerCase ''p.name'' (name p) of
             Inl e \<Rightarrow> Inl e
           | Inr l \<Rightarrow> Inr (includes_str l (toLowerCase t))) = Inr (name_contains p t)"
      using assms(1) by (auto simp: name_contains_def includes_lower_iff dest!: string_field)
    then show ?thesis
      using 2 False by (simp add: filter_search_def filter_throwing_total)
  qed
qed

lemma parseInt_single:
  "single_string v \<Longrightarrow> parseInt v = Inr (parseInt_str (param_text v))"
  by (erule single_string_cases) simp_all

lemma get_products_result:
  assumes "filter_category ps (map_of q ''category'') = Inr kept"
    and "filter_search kept (map_of q ''search'') = Inr result"
    and "single_string (map_of q ''page'')" and "single_string (map_of q ''limit'')"
  shows "get_products ps q =
    Inr \<lparr>status = 200,
         content = Json_list
           \<lparr>total = length result,
            page = or_default (parseInt_str (param_text (map_of q ''page''))) (Fin 1),
            limit = or_default (parseInt_str (param_text (map_of q ''limit''))) (Fin 10),
            data = slice result
              (num_mul
                 (num_sub (or_default (parseInt_str (param_text (map_of q ''page''))) (Fin 1))
                    (Fin 1))
                 (or_default (parseInt_str (param_text (map_of q ''limit''))) (Fin 10)))
              (num_mul (or_default (parseInt_str (param_text (map_of q ''page''))) (Fin 1))
                 (or_default (parseInt_str (param_text (map_of q ''limit''))) (Fin 10)))\<rparr>\<rparr>"
  using assms by (simp add: get_products_def Let_def parseInt_single)

text \<open>The route of the listing runs the handler on the query of the request.\<close>

lemma listing_route_runs:
  assumes "req_method req = GET" "path req = [a, b] \<or> path req = [a, b, []]"
    "toLowerCase a = ''api''" "toLowerCase b = ''products''"
  shows "handle_request ns uuid ps req =
      (ps, case get_products ps (query req) of Inl err \<Rightarrow> errorHandler err | Inr resp \<Rightarrow> resp)"
proof -
  have "find_route routes (req_method req) (path req) =
       Inr (Some (\<lparr>route_method = GET, route_path = [Lit ''api'', Lit ''products''],
                   route_middleware = [], route_handler = GetProducts\<rparr>, []))"
    unfolding assms(1) using assms(2-4) by (rule collection_path_route(2))
  then show ?thesis
    by (simp add: handle_request_def split: sum.splits)
qed

text \<open>
  Claim C4, as stated: a category filter applies whenever the parameter is present. It
  fails for a parameter that is present and empty (\<open>?category=\<close>): the code tests the
  parameter for truthiness and the empty string is falsy, so nothing is filtered and
  \<open>total\<close> is 2 on the seed store, where no product has the empty category.
\<close>

theorem empty_category_not_filtered:
  "get_products (seed_products ''u1'' ''u2'') [(''category'', QStr [])] =
     Inr \<lparr>status = 200,
          content = Json_list \<lparr>total = 2, page = Fin 1, limit = Fin 10,
                               data = seed_products ''u1'' ''u2''\<rparr>\<rparr>
   \<and> length (filtered_as_stated (seed_products ''u1'' ''u2'') [(''category'', QStr [])]) = 0"
proof -
  have ten: "round_double 10 = Fin 10"
    by (simp add: double_eval)
  have absent: "parseInt_str ''undefined'' = NaN"
    by (simp add: parse_eval)
  show ?thesis
    by (simp add: get_products_def filter_category_def filter_search_def or_default_def
        absent num_sub_def ten slice_def truncate_rat_def seed_products_def
        filtered_as_stated_def category_matches_def equal_ignoring_case_def)
qed

text \<open>
  A repeated parameter is an array, which has no \<open>toLowerCase\<close>: the listing fails with
  500 as soon as the store holds a product.
\<close>

lemma repeated_category_fails:
  "get_products (seed_products ''u1'' ''u2'') [(''category'', QArr [QStr ''a'', QStr ''b''])] =
     Inl (TypeError ''req.query.category.toLowerCase is not a function'')"
  by (simp add: get_products_def filter_category_def seed_products_def)

text \<open>
  Claim C4, amended. Take a store whose product names and categories are strings, and a
  query whose parameters \<open>category\<close>, \<open>search\<close>, \<open>page\<close> and \<open>limit\<close> are each absent or
  given once as a plain string. The listing keeps the products whose category equals the
  \<open>category\<close> parameter ignoring case when that parameter is present and not empty, then
  those whose name contains the \<open>search\<close> parameter ignoring case when that parameter is
  present; \<open>total\<close> is the number of products kept, before the page is cut out of them.
\<close>

theorem listing_filters:
  fixes q :: "(string \<times> qval) list" and pg lm :: jsnum
  defines "pg \<equiv> or_default (parseInt_str (param_text (map_of q ''page''))) (Fin 1)"
    and "lm \<equiv> or_default (parseInt_str (param_text (map_of q ''limit''))) (Fin 10)"
  assumes strings:
      "\<forall>p \<in> set ps. typeof (category p) = ''string'' \<and> typeof (name p) = ''string''"
    and plain: "single_string (map_of q ''category'')" "single_string (map_of q ''search'')"
      "single_string (map_of q ''page'')" "single_string (map_of q ''limit'')"
  shows "get_products ps q =
           Inr \<lparr>status = 200,
                content = Json_list
                  \<lparr>total = length (filtered_as_amended ps q), page = pg, limit = lm,
                   data = slice (filtered_as_amended ps q)
                            (num_mul (num_sub pg (Fin 1)) lm) (num_mul pg lm)\<rparr>\<rparr>"
proof -
  define kept where "kept =
    (case map_of q ''category'' of
       Some (QStr c) \<Rightarrow> if c = [] then ps else filter (\<lambda>p. category_matches p c) ps
     | _ \<Rightarrow> ps)"
  have subset: "set kept \<subseteq> set ps"
    by (auto simp: kept_def split: option.splits qval.splits)
  from strings plain(1) have "filter_category ps (map_of q ''category'') = Inr kept"
    by (simp add: filter_category_strings kept_def)
  moreover from strings subset plain(2) have "filter_search kept (map_of q ''search'') =
      Inr (case map_of q ''search'' of
             Some (QStr t) \<Rightarrow> filter (\<lambda>p. name_contains p t) kept
           | _ \<Rightarrow> kept)"
    by (intro filter_search_strings) auto
  moreover have "filtered_as_amended ps q =
      (case map_of q ''search'' of
         Some (QStr t) \<Rightarrow> filter (\<lambda>p. name_contains p t) kept
       | _ \<Rightarrow> kept)"
    unfolding filtered_as_amended_def kept_def Let_def ..
  ultimately show ?thesis
    using plain(3,4) by (simp add: get_products_result pg_def lm_def)
qed

theorem listing_filters_witness:
  "list_all (\<lambda>p. typeof (category p) = ''string'' \<and> typeof (name p) = ''string'')
     (seed_products ''u1'' ''u2'')
   \<and> list_all (\<lambda>k. single_string
        (map_of [(''category'', QStr ''electronics''), (''search'', QStr ''LAP'')] k))
       [''category'', ''search'', ''page'', ''limit'']
   \<and> get_products (seed_products ''u1'' ''u2'')
       [(''category'', QStr ''electronics''), (''search'', QStr ''LAP'')] =
       Inr \<lparr>status = 200,
            content = Json_list
              \<lparr>total = 1, page = Fin 1, limit = Fin 10,
               data = [\<lparr>id' = ''u1'', name = JStr ''Laptop'',
                        description = JStr ''High performance laptop'',
                        price = JNum (round_double 999.99), category = JStr ''Electronics'',
                        inStock = JBool True\<rparr>]\<rparr>\<rparr>"
proof -
  let ?q = "[(''category'', QStr ''electronics''), (''search'', QStr ''LAP'')]"
  have strings: "\<forall>p \<in> set (seed_products ''u1'' ''u2'').
      typeof (category p) = ''string'' \<and> typeof (name p) = ''string''"
    by (simp add: seed_products_def)
  have plain: "single_string (map_of ?q ''category'')" "single_string (map_of ?q ''search'')"
    "single_string (map_of ?q ''page'')" "single_string (map_of ?q ''limit'')"
    by simp_all
  have kept: "filtered_as_amended (seed_products ''u1'' ''u2'') ?q =
      [\<lparr>id' = ''u1'', name = JStr ''Laptop'', description = JStr ''High performance laptop'',
        price = JNum (round_double 999.99), category = JStr ''Electronics'',
        inStock = JBool True\<rparr>]"
    by (simp add: filtered_as_amended_def seed_products_def category_matches_def
        name_contains_def toLowerCase_eq_iff [symmetric] includes_lower_iff [symmetric]
        toLowerCase_def lower_char_def is_upper_def)
  have absent: "parseInt_str ''undefined'' = NaN"
    by (simp add: parse_eval)
  have page: "or_default (parseInt_str (param_text (map_of ?q ''page''))) (Fin 1) = Fin 1"
    and limit: "or_default (parseInt_str (param_text (map_of ?q ''limit''))) (Fin 10) = Fin 10"
    by (simp_all add: or_default_def absent)
  have ten: "round_double 10 = Fin 10"
    by (simp add: double_eval)
  from listing_filters [OF strings plain] show ?thesis
    unfolding kept page limit
    by (simp add: num_sub_def ten slice_def truncate_rat_def list_all_iff strings)
qed

subsection \<open>Listing: pagination\<close>

lemma map_nth_upt:
  "k \<le> length xs \<Longrightarrow> map (\<lambda>i. xs ! i) [m..<k] = take (k - m) (drop m xs)"
  by (rule nth_equalityI) auto

lemma filter_upt_range:
  "filter (\<lambda>i. m \<le> i \<and> i < k) [0..<n] = [m..<min k n]"
proof (induction n)
  case 0
  then show ?case by simp
next
  case (Suc n)
  show ?case
  proof (cases "n < k")
    case True
    then have "min k n = n" and "min k (Suc n) = Suc n"
      by simp_all
    with Suc True show ?thesis
      by (cases "m \<le> n") simp_all
  next
    case False
    then have "min k n = k" and "min k (Suc n) = k"
      by simp_all
    with Suc False show ?thesis
      by simp
  qed
qed

lemma window_take_drop:
  "window xs a b = take (min (nat b) (length xs) - nat a) (drop (nat a) xs)"
proof -
  have bounds: "(\<lambda>i. a \<le> int i \<and> int i < b) = (\<lambda>i. nat a \<le> i \<and> i < nat b)"
    by (auto simp: fun_eq_iff)
  have "window xs a b = map (\<lambda>i. xs ! i) [nat a..<min (nat b) (length xs)]"
    by (simp add: window_def bounds filter_upt_range)
  also have "\<dots> = take (min (nat b) (length xs) - nat a) (drop (nat a) xs)"
    by (simp add: map_nth_upt)
  finally show ?thesis .
qed

lemma slice_bound_counted:
  "slice_bound len x = min (nat (counted_from_end len x)) len"
proof (cases x)
  case (Fin r)
  consider "r \<le> - 1" | "- 1 < r" "r < 0" | "0 \<le> r" by linarith
  then show ?thesis
  proof cases
    case 1
    then have "\<lceil>r\<rceil> \<le> - 1"
      by (simp add: ceiling_le_iff)
    with 1 Fin show ?thesis
      by (simp add: truncate_rat_def Let_def)
  next
    case 2
    then have "\<lceil>r\<rceil> = 0"
      by (simp add: ceiling_eq_iff)
    with 2 Fin show ?thesis
      by (simp add: truncate_rat_def Let_def)
  next
    case 3
    then have "0 \<le> \<lfloor>r\<rfloor>"
      by simp
    with 3 Fin show ?thesis
      by (simp add: truncate_rat_def Let_def nat_le_iff min_def)
  qed
qed simp_all

lemma slice_counted:
  "slice xs s e =
     window xs (counted_from_end (length xs) s) (counted_from_end (length xs) e)"
proof -
  define n a b where "n = length xs" and "a = nat (counted_from_end (length xs) s)"
    and "b = nat (counted_from_end (length xs) e)"
  have "slice xs s e = take (min b n - min a n) (drop (min a n) xs)"
    by (simp add: slice_def Let_def slice_bound_counted n_def a_def b_def)
  also have "\<dots> = take (min b n - a) (drop a xs)"
    by (cases "a \<le> n") (simp_all add: n_def min_def)
  also have "\<dots> = window xs (counted_from_end (length xs) s) (counted_from_end (length xs) e)"
    by (simp add: window_take_drop n_def a_def b_def)
  finally show ?thesis .
qed

text \<open>Integers whose product stays within \<open>2^53\<close> are multiplied without rounding.\<close>

lemma page_bounds_exact:
  assumes "\<bar>P - 1\<bar> \<le> 2 ^ 53" "\<bar>(P - 1) * L\<bar> \<le> 2 ^ 53" "\<bar>P * L\<bar> \<le> 2 ^ 53"
  shows "num_mul (num_sub (Fin (of_int P)) (Fin 1)) (Fin (of_int L)) = Fin (of_int ((P - 1) * L))"
    and "num_mul (Fin (of_int P)) (Fin (of_int L)) = Fin (of_int (P * L))"
proof -
  have "num_sub (Fin (of_int P)) (Fin 1) = round_double (of_int (P - 1))"
    by (simp add: num_sub_def)
  also have "\<dots> = Fin (of_int (P - 1))"
    using assms(1) by (rule round_double_int)
  finally have sub: "num_sub (Fin (of_int P)) (Fin 1) = Fin (of_int (P - 1))" .
  have "num_mul (Fin (of_int (P - 1))) (Fin (of_int L)) = round_double (of_int ((P - 1) * L))"
    by simp
  also have "\<dots> = Fin (of_int ((P - 1) * L))"
    using assms(2) by (rule round_double_int)
  finally show "num_mul (num_sub (Fin (of_int P)) (Fin 1)) (Fin (of_int L)) =
      Fin (of_int ((P - 1) * L))"
    by (simp only: sub)
  have "num_mul (Fin (of_int P)) (Fin (of_int L)) = round_double (of_int (P * L))"
    by simp
  also have "\<dots> = Fin (of_int (P * L))"
    using assms(3) by (rule round_double_int)
  finally show "num_mul (Fin (of_int P)) (Fin (of_int L)) = Fin (of_int (P * L))" .
qed

text \<open>
  Claim C5, as stated: for every page and limit, negative ones included, the data is the
  window \<open>[(page-1)*limit, page*limit)\<close> of the filtered sequence, empty when out of range.
  It fails for negative values: \<open>slice\<close> counts a negative bound from the end of the
  array. With \<open>page=-1\<close> and \<open>limit=1\<close> the bounds are \<open>-2\<close> and \<open>-1\<close>; no index lies in that
  window, but \<open>slice(-2, -1)\<close> of the two seed products is the first of them.
\<close>

theorem negative_page_slices_from_end:
  "get_products (seed_products ''u1'' ''u2'') [(''page'', QStr ''-1''), (''limit'', QStr ''1'')] =
     Inr \<lparr>status = 200,
          content = Json_list
            \<lparr>total = 2, page = Fin (- 1), limit = Fin 1,
             data = [\<lparr>id' = ''u1'', name = JStr ''Laptop'',
                      description = JStr ''High performance laptop'',
                      price = JNum (round_double 999.99), category = JStr ''Electronics'',
                      inStock = JBool True\<rparr>]\<rparr>\<rparr>
   \<and> window (seed_products ''u1'' ''u2'') ((- 1 - 1) * 1) (- 1 * 1) = []"
proof -
  have parsed: "parseInt_str ''-1'' = round_double (- 1)" "parseInt_str ''1'' = round_double 1"
    by (simp_all add: parse_eval)
  have doubles: "round_double (- 1) = Fin (- 1)" "round_double 1 = Fin 1"
    "round_double (- 2) = Fin (- 2)"
    by (simp_all add: double_eval)
  show ?thesis
    by (simp add: get_products_def filter_category_def filter_search_def or_default_def
        parsed doubles num_sub_def slice_def truncate_rat_def ceiling_minus seed_products_def
        window_def)
qed

text \<open>
  Claim C5, amended. Take \<open>page\<close> and \<open>limit\<close> parameters that are each absent or given
  once as a plain string, whatever the string. They make the listing fail in no case:
  once the two filters have produced the sequence \<open>result\<close>, the response is 200. \<open>page\<close>
  is 1 and \<open>limit\<close> is 10 when the parameter does not parse as an integer (\<open>parseInt\<close>
  gives \<open>NaN\<close>) or parses as 0. The data is
  \<open>result.slice(start, stop)\<close> for \<open>start = (page-1)*limit\<close> and \<open>stop = page*limit\<close>,
  computed on doubles: without rounding while the products stay within \<open>2^53\<close>. The slice
  is the window of \<open>result\<close> between the two bounds, a negative bound counted from the end
  of \<open>result\<close>; so it is the window \<open>[start, stop)\<close> when both bounds are non-negative, and
  it is empty when \<open>start\<close> is at or past the end.
\<close>

theorem pagination_never_fails:
  fixes q :: "(string \<times> qval) list" and pg lm start stop :: jsnum
  defines "pg \<equiv> or_default (parseInt_str (param_text (map_of q ''page''))) (Fin 1)"
    and "lm \<equiv> or_default (parseInt_str (param_text (map_of q ''limit''))) (Fin 10)"
    and "start \<equiv>
      num_mul (num_sub (or_default (parseInt_str (param_text (map_of q ''page''))) (Fin 1))
                 (Fin 1))
        (or_default (parseInt_str (param_text (map_of q ''limit''))) (Fin 10))"
    and "stop \<equiv>
      num_mul (or_default (parseInt_str (param_text (map_of q ''page''))) (Fin 1))
        (or_default (parseInt_str (param_text (map_of q ''limit''))) (Fin 10))"
  assumes filters: "filter_category ps (map_of q ''category'') = Inr kept"
      "filter_search kept (map_of q ''search'') = Inr result"
    and plain: "single_string (map_of q ''page'')" "single_string (map_of q ''limit'')"
  shows "get_products ps q =
           Inr \<lparr>status = 200,
                content = Json_list
                  \<lparr>total = length result, page = pg, limit = lm,
                   data = slice result start stop\<rparr>\<rparr>
         \<and> (parseInt_str (param_text (map_of q ''page'')) \<in> {NaN, Fin 0} \<longrightarrow> pg = Fin 1)
         \<and> (parseInt_str (param_text (map_of q ''limit'')) \<in> {NaN, Fin 0} \<longrightarrow> lm = Fin 10)
         \<and> (pg = Fin (of_int P) \<and> lm = Fin (of_int L)
              \<and> \<bar>P - 1\<bar> \<le> 2 ^ 53 \<and> \<bar>(P - 1) * L\<bar> \<le> 2 ^ 53 \<and> \<bar>P * L\<bar> \<le> 2 ^ 53 \<longrightarrow>
              start = Fin (of_int ((P - 1) * L)) \<and> stop = Fin (of_int (P * L)))
         \<and> slice result start stop =
              window result (counted_from_end (length result) start)
                (counted_from_end (length result) stop)
         \<and> (start = Fin (of_int A) \<and> stop = Fin (of_int B) \<and> 0 \<le> A \<and> 0 \<le> B \<longrightarrow>
              slice result start stop = window result A B)
         \<and> (start = Fin (of_int A) \<and> int (length result) \<le> A \<longrightarrow>
              slice result start stop = [])"
proof (intro conjI impI)
  show "get_products ps q =
           Inr \<lparr>status = 200,
                content = Json_list
                  \<lparr>total = length result, page = pg, limit = lm,
                   data = slice result start stop\<rparr>\<rparr>"
    unfolding pg_def lm_def start_def stop_def using filters plain by (rule get_products_result)
next
  assume "parseInt_str (param_text (map_of q ''page'')) \<in> {NaN, Fin 0}"
  then show "pg = Fin 1" by (auto simp: pg_def or_default_def)
next
  assume "parseInt_str (param_text (map_of q ''limit'')) \<in> {NaN, Fin 0}"
  then show "lm = Fin 10" by (auto simp: lm_def or_default_def)
next
  assume exact: "pg = Fin (of_int P) \<and> lm = Fin (of_int L)
      \<and> \<bar>P - 1\<bar> \<le> 2 ^ 53 \<and> \<bar>(P - 1) * L\<bar> \<le> 2 ^ 53 \<and> \<bar>P * L\<bar> \<le> 2 ^ 53"
  have bounds: "start = num_mul (num_sub pg (Fin 1)) lm" "stop = num_mul pg lm"
    by (simp_all add: start_def stop_def pg_def lm_def)
  from exact show "start = Fin (of_int ((P - 1) * L))" "stop = Fin (of_int (P * L))"
    unfolding bounds by (simp_all only: page_bounds_exact)
next
  show counted: "slice result start stop =
      window result (counted_from_end (length result) start)
        (counted_from_end (length result) stop)"
    by (rule slice_counted)
  {
    assume "start = Fin (of_int A) \<and> stop = Fin (of_int B) \<and> 0 \<le> A \<and> 0 \<le> B"
    then show "slice result start stop = window result A B"
      by (simp add: slice_counted)
  }
  {
    assume "start = Fin (of_int A) \<and> int (length result) \<le> A"
    then show "slice result start stop = []"
      by (auto simp: slice_counted window_take_drop)
  }
qed

theorem pagination_never_fails_witness:
  "get_products (seed_products ''u1'' ''u2'') [(''limit'', QStr ''1''), (''page'', QStr ''2'')] =
     Inr \<lparr>status = 200,
          content = Json_list
            \<lparr>total = 2, page = Fin 2, limit = Fin 1,
             data = [\<lparr>id' = ''u2'', name = JStr ''Smartphone'',
                      description = JStr ''Latest smartphone model'',
                      price = JNum (round_double 699.99), category = JStr ''Electronics'',
                      inStock = JBool True\<rparr>]\<rparr>\<rparr>
   \<and> get_products (seed_products ''u1'' ''u2'')
       [(''limit'', QStr ''ten''), (''page'', QStr ''7'')] =
     Inr \<lparr>status = 200,
          content = Json_list \<lparr>total = 2, page = Fin 7, limit = Fin 10, data = []\<rparr>\<rparr>
   \<and> get_products (seed_products ''u1'' ''u2'')
       [(''limit'', QStr ''1''), (''page'', QStr ''-1'')] =
     Inr \<lparr>status = 200,
          content = Json_list
            \<lparr>total = 2, page = Fin (- 1), limit = Fin 1,
             data = window (seed_products ''u1'' ''u2'') (2 - 2) (2 - 1)\<rparr>\<rparr>
   \<and> window (seed_products ''u1'' ''u2'') (2 - 2) (2 - 1) =
       [\<lparr>id' = ''u1'', name = JStr ''Laptop'', description = JStr ''High performance laptop'',
         price = JNum (round_double 999.99), category = JStr ''Electronics'',
         inStock = JBool True\<rparr>]"
proof -
  let ?q1 = "[(''limit'', QStr ''1''), (''page'', QStr ''2'')]"
  let ?q2 = "[(''limit'', QStr ''ten''), (''page'', QStr ''7'')]"
  let ?q3 = "[(''limit'', QStr ''1''), (''page'', QStr ''-1'')]"
  let ?seed = "seed_products ''u1'' ''u2''"
  have kept1: "filter_category ?seed (map_of ?q1 ''category'') = Inr ?seed"
    and result1: "filter_search ?seed (map_of ?q1 ''search'') = Inr ?seed"
    and kept2: "filter_category ?seed (map_of ?q2 ''category'') = Inr ?seed"
    and result2: "filter_search ?seed (map_of ?q2 ''search'') = Inr ?seed"
    and kept3: "filter_category ?seed (map_of ?q3 ''category'') = Inr ?seed"
    and result3: "filter_search ?seed (map_of ?q3 ''search'') = Inr ?seed"
    by (simp_all add: filter_category_def filter_search_def)
  have plain:
    "single_string (map_of ?q1 ''page'')" "single_string (map_of ?q1 ''limit'')"
    "single_string (map_of ?q2 ''page'')" "single_string (map_of ?q2 ''limit'')"
    "single_string (map_of ?q3 ''page'')" "single_string (map_of ?q3 ''limit'')"
    by simp_all
  have parsed:
    "parseInt_str ''1'' = round_double 1" "parseInt_str ''2'' = round_double 2"
    "parseInt_str ''7'' = round_double 7" "parseInt_str ''-1'' = round_double (- 1)"
    "parseInt_str ''ten'' = NaN"
    by (simp_all add: parse_eval)
  have doubles: "round_double 1 = Fin 1" "round_double 2 = Fin 2" "round_double 7 = Fin 7"
    "round_double (- 1) = Fin (- 1)" "round_double (- 2) = Fin (- 2)"
    "round_double 60 = Fin 60" "round_double 70 = Fin 70" "round_double 6 = Fin 6"
    by (simp_all add: double_eval)
  have len: "length ?seed = 2"
    by (simp add: seed_products_def)
  note page2 = pagination_never_fails [OF kept1 result1 plain(1,2), of 2 1 1 2]
  note page7 = pagination_never_fails [OF kept2 result2 plain(3,4), of 7 10 60 70]
  note last = pagination_never_fails [OF kept3 result3 plain(5,6), of "- 1" 1 "- 2" "- 1"]
  from page2 have first: "get_products ?seed ?q1 =
     Inr \<lparr>status = 200,
          content = Json_list
            \<lparr>total = 2, page = Fin 2, limit = Fin 1,
             data = [\<lparr>id' = ''u2'', name = JStr ''Smartphone'',
                      description = JStr ''Latest smartphone model'',
                      price = JNum (round_double 699.99), category = JStr ''Electronics'',
                      inStock = JBool True\<rparr>]\<rparr>\<rparr>"
    by (simp add: parsed doubles or_default_def num_sub_def len)
      (simp add: seed_products_def window_def)
  from page7 have second: "get_products ?seed ?q2 =
     Inr \<lparr>status = 200,
          content = Json_list \<lparr>total = 2, page = Fin 7, limit = Fin 10, data = []\<rparr>\<rparr>"
    by (auto simp: parsed doubles or_default_def num_sub_def len)
  from last have third: "get_products ?seed ?q3 =
     Inr \<lparr>status = 200,
          content = Json_list
            \<lparr>total = 2, page = Fin (- 1), limit = Fin 1,
             data = window ?seed (2 - 2) (2 - 1)\<rparr>\<rparr>"
    by (simp add: parsed doubles or_default_def num_sub_def len ceiling_minus)
  have "window ?seed (2 - 2) (2 - 1) =
       [\<lparr>id' = ''u1'', name = JStr ''Laptop'', description = JStr ''High performance laptop'',
         price = JNum (round_double 999.99), category = JStr ''Electronics'',
         inStock = JBool True\<rparr>]"
    by (simp add: seed_products_def window_def)
  with first second third show ?thesis
    by simp
qed

subsection \<open>Statistics\<close>

lemma first_seen_snoc:
  "first_seen (ks @ [k]) = (if k \<in> set ks then first_seen ks else first_seen ks @ [k])"
  by (simp add: first_seen_def)

lemma set_first_seen: "set (first_seen ks) = set ks"
  by (simp add: first_seen_def)

lemma keys_histogram: "map fst (histogram ks) = first_seen ks"
  by (simp add: histogram_def comp_def)

lemma map_of_histogram:
  "map_of (histogram ks) k =
     (if k \<in> set ks then Some (Fin (of_nat (count_list ks k))) else None)"
  by (simp add: histogram_def map_of_map_restrict restrict_map_def set_first_seen)

lemma histogram_snoc_new:
  assumes "k \<notin> set ks"
  shows "histogram (ks @ [k]) = histogram ks @ [(k, Fin 1)]"
proof -
  have "map (\<lambda>x. (x, Fin (of_nat (count_list (ks @ [k]) x)))) (first_seen ks) =
        map (\<lambda>x. (x, Fin (of_nat (count_list ks x)))) (first_seen ks)"
    using assms by (intro map_cong) (auto simp: set_first_seen)
  with assms show ?thesis
    by (simp add: histogram_def first_seen_snoc)
qed

lemma histogram_snoc_old:
  assumes "k \<in> set ks"
  shows "histogram (ks @ [k]) =
           map (\<lambda>kv. if fst kv = k then (k, Fin (of_nat (count_list ks k) + 1)) else kv)
             (histogram ks)"
  using assms by (simp add: histogram_def first_seen_snoc comp_def)

lemma count_incremented:
  assumes "n < 2 ^ 53"
  shows "num_add (Fin (of_nat n)) (Fin 1) = Fin (of_nat n + 1)"
proof -
  from assms have "Suc n \<le> 2 ^ 53" by simp
  then have "round_double (of_nat (Suc n)) = Fin (of_nat (Suc n))"
    by (rule round_double_nat)
  then show ?thesis by (simp add: add.commute)
qed

lemma count_category_histogram:
  assumes "\<not> is_array_index k" and "k \<notin> set object_prototype_keys" and "length ks < 2 ^ 53"
  shows "count_category (histogram ks) k = histogram (ks @ [k])"
proof (cases "k \<in> set ks")
  case True
  then have pos: "count_list ks k \<noteq> 0"
    by (simp add: count_list_0_iff)
  have "count_list ks k \<le> length ks"
    by (rule count_le_length)
  with assms(3) have "count_list ks k < 2 ^ 53"
    by simp
  then have next_count:
    "num_add (Fin (of_nat (count_list ks k))) (Fin 1) = Fin (of_nat (count_list ks k) + 1)"
    by (rule count_incremented)
  from assms(2) have proto: "k \<noteq> ''__proto__''"
    by (auto simp: object_prototype_keys_def)
  from True have own: "get_prop (histogram ks) k = Own (Fin (of_nat (count_list ks k)))"
    by (simp add: get_prop_def map_of_histogram)
  from True have key: "k \<in> set (map fst (histogram ks))"
    by (simp add: keys_histogram set_first_seen)
  show ?thesis
    using pos proto key True
    by (simp add: count_category_def own Let_def set_prop_def own_set_def histogram_snoc_old
        next_count del: num_add.simps)
next
  case False
  have one: "num_add (Fin 0) (Fin 1) = Fin 1"
    using count_incremented [of 0] by simp
  from assms(2) have proto: "k \<noteq> ''__proto__''"
    by (auto simp: object_prototype_keys_def)
  from False assms(2) have absent: "get_prop (histogram ks) k = Absent"
    by (simp add: get_prop_def map_of_histogram)
  from False have key: "k \<notin> set (map fst (histogram ks))"
    by (simp add: keys_histogram set_first_seen)
  then have started: "set_prop k (Fin 0) (histogram ks) = histogram ks @ [(k, Fin 0)]"
    using proto assms(1) by (simp add: set_prop_def own_set_def)
  from False have own: "get_prop (histogram ks @ [(k, Fin 0)]) k = Own (Fin 0)"
    by (simp add: get_prop_def map_of_histogram map_add_def)
  have "map (\<lambda>kv. if fst kv = k then (k, Fin 1) else kv) (histogram ks) = histogram ks"
    using key by (intro map_idI) auto
  then have "set_prop k (Fin 1) (histogram ks @ [(k, Fin 0)]) = histogram ks @ [(k, Fin 1)]"
    using proto by (simp add: set_prop_def own_set_def)
  with False show ?thesis
    by (simp add: count_category_def absent started own Let_def histogram_snoc_new one
        del: num_add.simps)
qed

lemma foldl_count_category:
  "\<forall>k \<in> set ks. \<not> is_array_index k \<and> k \<notin> set object_prototype_keys \<Longrightarrow>
   length ks \<le> 2 ^ 53 \<Longrightarrow> foldl count_category [] ks = histogram ks"
proof (induction ks rule: rev_induct)
  case Nil
  then show ?case by (simp add: histogram_def first_seen_def)
next
  case (snoc k ks)
  then show ?case
    by (simp add: count_category_histogram)
qed

lemma histogram_counts_positive:
  assumes "(k, c) \<in> set (histogram ks)"
  shows "\<exists>n>0. c = Fin (of_nat n)"
proof -
  from assms have "k \<in> set ks" and c: "c = Fin (of_nat (count_list ks k))"
    by (auto simp: histogram_def set_first_seen)
  then have "count_list ks k \<noteq> 0"
    by (simp add: count_list_0_iff)
  with c show ?thesis by blast
qed

text \<open>The sum of finite prices, and why the mean is never \<open>NaN\<close>.\<close>

lemma sum_prices:
  "\<forall>p \<in> set ps. finite_price p \<Longrightarrow>
   foldl (\<lambda>sum p. js_plus ns sum (price p)) (JNum acc) ps =
     JNum (rounded_sum acc (map price_value ps))"
proof (induction ps arbitrary: acc)
  case Nil
  then show ?case by simp
next
  case (Cons p ps)
  from Cons.prems obtain r where r: "price p = JNum (Fin r)"
    by (auto simp: finite_price_def split: jsval.splits jsnum.splits)
  then have "js_plus ns (JNum acc) (price p) = JNum (num_add acc (Fin r))"
    by (simp add: js_plus_def)
  moreover from r have "price_value p = r"
    by (simp add: price_value_def)
  ultimately show ?case
    using Cons by simp
qed

lemma round_double_not_NaN: "round_double r \<noteq> NaN"
  by (simp add: round_double_def Let_def)

lemma rounded_sum_not_NaN: "acc \<noteq> NaN \<Longrightarrow> rounded_sum acc rs \<noteq> NaN"
proof (induction rs arbitrary: acc)
  case Nil
  then show ?case by simp
next
  case (Cons r rs)
  from Cons.prems have "num_add acc (Fin r) \<noteq> NaN"
    by (cases acc) (simp_all add: round_double_not_NaN)
  then show ?case
    by (simp add: Cons.IH del: num_add.simps)
qed

lemma mean_not_NaN:
  assumes "rs \<noteq> []"
  shows "or_zero (num_div_length (rounded_sum (Fin 0) rs) (length rs)) =
           num_div_length (rounded_sum (Fin 0) rs) (length rs)"
proof -
  have "rounded_sum (Fin 0) rs \<noteq> NaN"
    by (rule rounded_sum_not_NaN) simp
  with assms have "num_div_length (rounded_sum (Fin 0) rs) (length rs) \<noteq> NaN"
    by (cases "rounded_sum (Fin 0) rs") (simp_all add: round_double_not_NaN)
  then show ?thesis
    by (cases "num_div_length (rounded_sum (Fin 0) rs) (length rs)") (simp_all add: or_zero_def)
qed

lemma exact_rounded_sum:
  "exact_sums a rs \<Longrightarrow> rounded_sum (Fin a) rs = Fin (a + sum_list rs)"
  by (induction rs arbitrary: a) (simp_all add: is_double_def add.assoc)

lemma plain_category_key:
  "plain_category p \<Longrightarrow>
   toString ns (category p) = category_text p
   \<and> \<not> is_array_index (category_text p) \<and> category_text p \<notin> set object_prototype_keys"
  by (auto simp: plain_category_def category_text_def split: jsval.splits)

text \<open>
  Claim C9, as stated: the keys of the category histogram appear in first-seen order,
  for every store. It fails for a category that is an array index such as \<open>1\<close>: an
  object lists such keys first, in numeric order, so with the categories \<open>b\<close> then \<open>1\<close>
  the histogram has the key \<open>1\<close> before the key \<open>b\<close>.
\<close>

theorem index_category_listed_first:
  "product_stats (\<lambda>r. [])
     [\<lparr>id' = ''u1'', name = JStr ''Bolt'', description = JStr ''d'', price = JNum (Fin 1),
       category = JStr ''b'', inStock = JBool True\<rparr>,
      \<lparr>id' = ''u2'', name = JStr ''Nut'', description = JStr ''d'', price = JNum (Fin 3),
       category = JStr ''1'', inStock = JBool False\<rparr>]
   = \<lparr>status = 200,
      content = Json_stats
        \<lparr>totalProducts = 2, categories = [(''1'', Fin 1), (''b'', Fin 1)],
         inStockCount = 1, outOfStockCount = 1, averagePrice = Fin 2\<rparr>\<rparr>
   \<and> first_seen [''b'', ''1''] = [''b'', ''1'']"
proof -
  have doubles: "round_double 1 = Fin 1" "round_double 2 = Fin 2" "round_double 4 = Fin 4"
    by (simp_all add: double_eval)
  show ?thesis
    by (simp add: product_stats_def Let_def js_plus_def or_zero_def count_category_def
        get_prop_def set_prop_def own_set_def is_array_index_def is_digit_def digits_val_def
        char_val_def object_prototype_keys_def first_seen_def doubles)
qed

text \<open>
  The average is computed on doubles, so it is the arithmetic mean only up to rounding:
  the prices \<open>2^53\<close> and 1 add up to \<open>2^53\<close>, and their average comes out as \<open>2^52\<close>.
\<close>

lemma average_is_rounded:
  "averagePrice_of
     [\<lparr>id' = ''u1'', name = JStr ''Bolt'', description = JStr ''d'',
       price = JNum (Fin 9007199254740992), category = JStr ''b'', inStock = JBool True\<rparr>,
      \<lparr>id' = ''u2'', name = JStr ''Nut'', description = JStr ''d'', price = JNum (Fin 1),
       category = JStr ''b'', inStock = JBool False\<rparr>]
   = Fin 4503599627370496"
proof -
  have doubles: "round_double 9007199254740992 = Fin 9007199254740992"
    "round_double 9007199254740993 = Fin 9007199254740992"
    "round_double 4503599627370496 = Fin 4503599627370496"
    by (simp_all add: double_eval)
  show ?thesis
    by (simp add: averagePrice_of_def product_stats_def Let_def js_plus_def or_zero_def doubles)
qed

text \<open>
  Claim C9, amended. Take a store of fewer than \<open>2^32\<close> products (the bound of an array)
  in which every category is a string that is neither an array index nor the name of a
  member of \<open>Object.prototype\<close>, and every price is a finite number. Then
  \<open>totalProducts\<close> is the size of the store, \<open>inStock\<close> and \<open>outOfStock\<close> count the
  products whose flag is truthy and falsy and add up to the size, the category histogram
  has its keys in first-seen order, each with the number of products of that category
  (never zero), and \<open>averagePrice\<close> is the mean of the prices as double arithmetic
  computes it, 0 for the empty store. It is the arithmetic mean of the prices when
  adding them up rounds nowhere and the quotient is a double.
\<close>

theorem stats_of_store:
  assumes "\<forall>p \<in> set ps. plain_category p" and "\<forall>p \<in> set ps. finite_price p"
    and "length ps < 2 ^ 32"
  shows "product_stats ns ps =
           \<lparr>status = 200,
            content = Json_stats
              \<lparr>totalProducts = length ps,
               categories = histogram (map category_text ps),
               inStockCount = length (filter (\<lambda>p. truthy (inStock p)) ps),
               outOfStockCount = length (filter (\<lambda>p. \<not> truthy (inStock p)) ps),
               averagePrice = double_mean (map price_value ps)\<rparr>\<rparr>
         \<and> length (filter (\<lambda>p. truthy (inStock p)) ps)
             + length (filter (\<lambda>p. \<not> truthy (inStock p)) ps) = length ps
         \<and> (\<forall>k c. (k, c) \<in> set (histogram (map category_text ps)) \<longrightarrow>
               (\<exists>n>0. c = Fin (of_nat n)))
         \<and> (ps \<noteq> [] \<and> exact_sums 0 (map price_value ps)
              \<and> is_double (sum_list (map price_value ps) / of_nat (length ps)) \<longrightarrow>
              double_mean (map price_value ps) =
                Fin (sum_list (map price_value ps) / of_nat (length ps)))
         \<and> (ps = [] \<longrightarrow> double_mean (map price_value ps) = Fin 0)"
proof (intro conjI allI impI)
  have keys: "map (\<lambda>p. toString ns (category p)) ps = map category_text ps"
    using assms(1) by (intro map_cong) (auto dest: plain_category_key)
  have "(2::nat) ^ 32 \<le> 2 ^ 53"
    by simp
  with assms(3) have size: "length (map category_text ps) \<le> 2 ^ 53"
    by simp
  have "foldl (\<lambda>cats p. count_category cats (toString ns (category p))) [] ps =
        foldl count_category [] (map category_text ps)"
    by (simp add: foldl_map keys [symmetric])
  also have "\<dots> = histogram (map category_text ps)"
    using assms(1) size by (intro foldl_count_category) (auto dest: plain_category_key)
  finally have cats:
    "foldl (\<lambda>cats p. count_category cats (toString ns (category p))) [] ps =
       histogram (map category_text ps)" .
  have total: "foldl (\<lambda>sum p. js_plus ns sum (price p)) (JNum (Fin 0)) ps =
      JNum (rounded_sum (Fin 0) (map price_value ps))"
    using assms(2) by (rule sum_prices)
  have mean: "or_zero (num_div_length (rounded_sum (Fin 0) (map price_value ps)) (length ps)) =
      double_mean (map price_value ps)"
  proof (cases "ps = []")
    case True
    then show ?thesis by (simp add: double_mean_def or_zero_def)
  next
    case False
    then show ?thesis
      using mean_not_NaN [of "map price_value ps"] by (simp add: double_mean_def)
  qed
  show "product_stats ns ps =
           \<lparr>status = 200,
            content = Json_stats
              \<lparr>totalProducts = length ps,
               categories = histogram (map category_text ps),
               inStockCount = length (filter (\<lambda>p. truthy (inStock p)) ps),
               outOfStockCount = length (filter (\<lambda>p. \<not> truthy (inStock p)) ps),
               averagePrice = double_mean (map price_value ps)\<rparr>\<rparr>"
    by (simp add: product_stats_def Let_def cats total mean)
next
  show "length (filter (\<lambda>p. truthy (inStock p)) ps)
             + length (filter (\<lambda>p. \<not> truthy (inStock p)) ps) = length ps"
    by (rule sum_length_filter_compl)
next
  fix k c
  assume "(k, c) \<in> set (histogram (map category_text ps))"
  then show "\<exists>n>0. c = Fin (of_nat n)"
    by (rule histogram_counts_positive)
next
  assume exact: "ps \<noteq> [] \<and> exact_sums 0 (map price_value ps)
      \<and> is_double (sum_list (map price_value ps) / of_nat (length ps))"
  then have "rounded_sum (Fin 0) (map price_value ps) = Fin (sum_list (map price_value ps))"
    using exact_rounded_sum [of 0 "map price_value ps"] by simp
  with exact show "double_mean (map price_value ps) =
      Fin (sum_list (map price_value ps) / of_nat (length ps))"
    by (simp add: double_mean_def is_double_def)
next
  assume "ps = []"
  then show "double_mean (map price_value ps) = Fin 0"
    by (simp add: double_mean_def)
qed

theorem stats_of_store_witness:
  "list_all plain_category
     [\<lparr>id' = ''u1'', name = JStr ''Pen'', description = JStr ''d'', price = JNum (Fin (21 / 2)),
       category = JStr ''Office'', inStock = JBool True\<rparr>,
      \<lparr>id' = ''u2'', name = JStr ''Flask'', description = JStr ''d'', price = JNum (Fin 20),
       category = JStr ''Lab'', inStock = JBool False\<rparr>,
      \<lparr>id' = ''u3'', name = JStr ''Ink'', description = JStr ''d'', price = JNum (Fin 1),
       category = JStr ''Office'', inStock = JBool True\<rparr>]
   \<and> exact_sums 0 [21 / 2, 20, 1] \<and> is_double (21 / 2)
   \<and> product_stats (\<lambda>r. [])
       [\<lparr>id' = ''u1'', name = JStr ''Pen'', description = JStr ''d'', price = JNum (Fin (21 / 2)),
         category = JStr ''Office'', inStock = JBool True\<rparr>,
        \<lparr>id' = ''u2'', name = JStr ''Flask'', description = JStr ''d'', price = JNum (Fin 20),
         category = JStr ''Lab'', inStock = JBool False\<rparr>,
        \<lparr>id' = ''u3'', name = JStr ''Ink'', description = JStr ''d'', price = JNum (Fin 1),
         category = JStr ''Office'', inStock = JBool True\<rparr>] =
       \<lparr>status = 200,
        content = Json_stats
          \<lparr>totalProducts = 3, categories = [(''Office'', Fin 2), (''Lab'', Fin 1)],
           inStockCount = 2, outOfStockCount = 1, averagePrice = Fin (21 / 2)\<rparr>\<rparr>
   \<and> product_stats (\<lambda>r. []) [] =
       \<lparr>status = 200,
        content = Json_stats
          \<lparr>totalProducts = 0, categories = [], inStockCount = 0, outOfStockCount = 0,
           averagePrice = Fin 0\<rparr>\<rparr>"
proof -
  let ?store =
    "[\<lparr>id' = ''u1'', name = JStr ''Pen'', description = JStr ''d'', price = JNum (Fin (21 / 2)),
       category = JStr ''Office'', inStock = JBool True\<rparr>,
      \<lparr>id' = ''u2'', name = JStr ''Flask'', description = JStr ''d'', price = JNum (Fin 20),
       category = JStr ''Lab'', inStock = JBool False\<rparr>,
      \<lparr>id' = ''u3'', name = JStr ''Ink'', description = JStr ''d'', price = JNum (Fin 1),
       category = JStr ''Office'', inStock = JBool True\<rparr>]"
  have plain: "\<forall>p \<in> set ?store. plain_category p"
    by (simp add: plain_category_def is_array_index_def is_digit_def object_prototype_keys_def)
  have finite: "\<forall>p \<in> set ?store. finite_price p"
    by (simp add: finite_price_def)
  have size: "length ?store < 2 ^ 32"
    by simp
  have doubles: "round_double (21 / 2) = Fin (21 / 2)" "round_double (61 / 2) = Fin (61 / 2)"
    "round_double (63 / 2) = Fin (63 / 2)"
    by (simp_all add: double_eval)
  have prices: "map price_value ?store = [21 / 2, 20, 1]"
    by (simp add: price_value_def)
  have exact: "exact_sums 0 [21 / 2, 20, 1]" "is_double (21 / 2)"
    by (simp_all add: is_double_def doubles)
  have hist: "histogram (map category_text ?store) = [(''Office'', Fin 2), (''Lab'', Fin 1)]"
    by (simp add: histogram_def first_seen_def category_text_def)
  from stats_of_store [OF plain finite size, of "\<lambda>r. []"]
  have "product_stats (\<lambda>r. []) ?store =
       \<lparr>status = 200,
        content = Json_stats
          \<lparr>totalProducts = 3, categories = [(''Office'', Fin 2), (''Lab'', Fin 1)],
           inStockCount = 2, outOfStockCount = 1, averagePrice = Fin (21 / 2)\<rparr>\<rparr>"
    unfolding hist prices using exact by simp
  moreover from stats_of_store [of "[]" "\<lambda>r. []"]
  have "product_stats (\<lambda>r. []) [] =
       \<lparr>status = 200,
        content = Json_stats
          \<lparr>totalProducts = 0, categories = [], inStockCount = 0, outOfStockCount = 0,
           averagePrice = Fin 0\<rparr>\<rparr>"
    by (simp add: histogram_def first_seen_def)
  ultimately show ?thesis
    using plain exact by (simp add: list_all_iff)
qed

end
